theory Spec2Isabelle
  imports Complex_Main
begin

section \<open>Python values and the builtins the add-on calls\<close>

text \<open>
  A Python float is a finite number, an infinity or NaN. Only comparisons and conversions
  are used by the add-on, never float arithmetic, so a finite float is represented by the
  real number it denotes. Every comparison with NaN is false, as in Python.
\<close>

datatype pyfloat = Fin real | PosInf | NegInf | NaN

fun float_gt :: "pyfloat \<Rightarrow> pyfloat \<Rightarrow> bool" where
  "float_gt NaN b = False"
| "float_gt a NaN = False"
| "float_gt (Fin a) (Fin b) = (b < a)"
| "float_gt PosInf PosInf = False"
| "float_gt PosInf b = True"
| "float_gt a PosInf = False"
| "float_gt NegInf b = False"
| "float_gt (Fin a) NegInf = True"

fun float_le :: "pyfloat \<Rightarrow> pyfloat \<Rightarrow> bool" where
  "float_le NaN b = False"
| "float_le a NaN = False"
| "float_le (Fin a) (Fin b) = (a \<le> b)"
| "float_le a PosInf = True"
| "float_le PosInf b = False"
| "float_le NegInf b = True"
| "float_le (Fin a) NegInf = False"

text \<open>The values an ID property holds in this model: the four scalar kinds the add-on writes.\<close>

datatype pyval = PInt int | PFloat pyfloat | PBool bool | PStr string

datatype pyerror = ValueError | TypeError | OverflowError

text \<open>
  Parts of the Python runtime that depend on floating-point rounding or on the grammar of
  numeric literals are taken as parameters: \<open>float(n)\<close> for an int (rounds, may overflow),
  \<open>float(s)\<close> and \<open>int(s)\<close> for a string (parse or raise), and \<open>str(f)\<close> for a float.
\<close>

record pyrt =
  float_of_int :: "int \<Rightarrow> pyerror + pyfloat"
  float_of_str :: "string \<Rightarrow> pyerror + pyfloat"
  int_of_str :: "string \<Rightarrow> pyerror + int"
  str_of_float :: "pyfloat \<Rightarrow> string"

subsection \<open>Decimal text of integers\<close>

definition digit_char :: "nat \<Rightarrow> char" where
  "digit_char d = ''0123456789'' ! d"

function str_nat :: "nat \<Rightarrow> string" where
  "str_nat n = (if n < 10 then [digit_char n] else str_nat (n div 10) @ [digit_char (n mod 10)])"
  by pat_completeness auto
termination
  by (relation "measure (\<lambda>n. n)") auto

declare str_nat.simps [simp del]

text \<open>\<open>str(i)\<close> for an int.\<close>

definition str_int :: "int \<Rightarrow> string" where
  "str_int i = (if i < 0 then CHR ''-'' # str_nat (nat (- i)) else str_nat (nat i))"

text \<open>\<open>format(i, "03d")\<close>: sign-aware zero padding to a minimum width of 3.\<close>

definition zfill :: "nat \<Rightarrow> string \<Rightarrow> string" where
  "zfill w ds = replicate (w - length ds) (CHR ''0'') @ ds"

definition format_03d :: "int \<Rightarrow> string" where
  "format_03d i =
     (if i < 0 then CHR ''-'' # zfill 2 (str_nat (nat (- i))) else zfill 3 (str_nat (nat i)))"

text \<open>\<open>def zero_pad(n): return f"{n:03d}_"\<close>\<close>

definition zero_pad :: "int \<Rightarrow> string" where
  "zero_pad n = format_03d n @ ''_''"

text \<open>Reading a string of decimal digits back as a number (used to state what \<open>zero_pad\<close> prints).\<close>

definition is_digit :: "char \<Rightarrow> bool" where
  "is_digit c = (c \<in> set ''0123456789'')"

definition digit_val :: "char \<Rightarrow> nat" where
  "digit_val c = of_char c - 48"

definition decimal_value :: "string \<Rightarrow> nat" where
  "decimal_value ds = foldl (\<lambda>acc c. 10 * acc + digit_val c) 0 ds"

subsection \<open>The conversions \<open>int\<close>, \<open>float\<close>, \<open>bool\<close>, \<open>str\<close>\<close>

fun py_int :: "pyrt \<Rightarrow> pyval \<Rightarrow> pyerror + int" where
  "py_int rt (PInt n) = Inr n"
| "py_int rt (PBool b) = Inr (if b then 1 else 0)"
| "py_int rt (PFloat (Fin r)) = Inr (if 0 \<le> r then \<lfloor>r\<rfloor> else \<lceil>r\<rceil>)"
| "py_int rt (PFloat NaN) = Inl ValueError"
| "py_int rt (PFloat f) = Inl OverflowError"
| "py_int rt (PStr s) = int_of_str rt s"

fun py_float :: "pyrt \<Rightarrow> pyval \<Rightarrow> pyerror + pyfloat" where
  "py_float rt (PInt n) = float_of_int rt n"
| "py_float rt (PBool b) = Inr (Fin (if b then 1 else 0))"
| "py_float rt (PFloat f) = Inr f"
| "py_float rt (PStr s) = float_of_str rt s"

fun py_bool :: "pyval \<Rightarrow> bool" where
  "py_bool (PInt n) = (n \<noteq> 0)"
| "py_bool (PBool b) = b"
| "py_bool (PFloat f) = (f \<noteq> Fin 0)"
| "py_bool (PStr s) = (s \<noteq> [])"

fun py_str :: "pyrt \<Rightarrow> pyval \<Rightarrow> string" where
  "py_str rt (PInt n) = str_int n"
| "py_str rt (PBool b) = (if b then ''True'' else ''False'')"
| "py_str rt (PFloat f) = str_of_float rt f"
| "py_str rt (PStr s) = s"

text \<open>\<open>s.strip()\<close> on ASCII text: whitespace is removed at both ends.\<close>

definition is_space :: "char \<Rightarrow> bool" where
  "is_space c = (let k = (of_char c :: nat) in (9 \<le> k \<and> k \<le> 13) \<or> (28 \<le> k \<and> k \<le> 32))"

definition strip :: "string \<Rightarrow> string" where
  "strip s = rev (dropWhile is_space (rev (dropWhile is_space s)))"

section \<open>Attribute containers\<close>

text \<open>
  Modelled from the spec: the host's ID blocks are not part of the repository. Following the
  capability interface of the specification (\<open>has\<close>, \<open>get\<close>, \<open>set\<close>, \<open>set_metadata\<close>), an ID
  block is a keyed store of values (\<open>props\<close>) with UI metadata per key (\<open>ui\<close>, the empty map
  for a key that has none). \<open>ui_api\<close> tells whether the host's metadata facility
  (\<open>id_properties_ui(key).update_from_dict\<close>) is available; when it is not, the call raises
  and the add-on swallows the exception. \<open>name\<close> is the datablock name.
\<close>

record idblock =
  name :: string
  props :: "string \<rightharpoonup> pyval"
  ui :: "string \<Rightarrow> string \<rightharpoonup> pyval"
  ui_api :: bool

text \<open>
  The four identifiers of the \<open>prop_type\<close> enum. The enum admits no other value, so the final
  \<open>else\<close> of the creation step in \<open>idprop_apply_ui\<close> is not reachable.
\<close>

datatype prop_kind = K_INT | K_FLOAT | K_BOOL | K_STRING

text \<open>The keyword arguments of \<open>idprop_apply_ui\<close>; \<open>None\<close> is Python's \<open>None\<close>.\<close>

record kwargs =
  ptype :: prop_kind
  dflt :: "pyval option"
  min_val :: "pyval option"
  max_val :: "pyval option"
  desc :: "string option"
  subtype :: "string option"
  soft_min :: "pyval option"
  soft_max :: "pyval option"

subsection \<open>\<open>idprop_apply_ui\<close>\<close>

text \<open>The value written for a missing key: the supplied default, or the kind's zero value,
  converted to the kind. The conversion is outside any \<open>try\<close>, so its error propagates.\<close>

definition initial_value :: "pyrt \<Rightarrow> prop_kind \<Rightarrow> pyval option \<Rightarrow> pyerror + pyval" where
  "initial_value rt k d =
     (case k of
        K_INT \<Rightarrow> map_sum id PInt (py_int rt (case d of None \<Rightarrow> PInt 0 | Some v \<Rightarrow> v))
      | K_FLOAT \<Rightarrow> map_sum id PFloat (py_float rt (case d of None \<Rightarrow> PFloat (Fin 0) | Some v \<Rightarrow> v))
      | K_BOOL \<Rightarrow> Inr (PBool (py_bool (case d of None \<Rightarrow> PBool False | Some v \<Rightarrow> v)))
      | K_STRING \<Rightarrow> Inr (PStr (py_str rt (case d of None \<Rightarrow> PStr [] | Some v \<Rightarrow> v))))"

definition create_if_missing :: "pyrt \<Rightarrow> idblock \<Rightarrow> string \<Rightarrow> kwargs \<Rightarrow> pyerror + idblock" where
  "create_if_missing rt b key kw =
     (if key \<in> dom (props b) then Inr b
      else (case initial_value rt (ptype kw) (dflt kw) of
              Inl e \<Rightarrow> Inl e
            | Inr v \<Rightarrow> Inr (b\<lparr>props := (props b)(key \<mapsto> v)\<rparr>)))"

text \<open>\<open>kind(idblock.get(key, zero))\<close>: the stored value converted to the kind.\<close>

definition coerce :: "pyrt \<Rightarrow> prop_kind \<Rightarrow> pyval \<Rightarrow> pyerror + pyval" where
  "coerce rt k v =
     (case k of
        K_INT \<Rightarrow> map_sum id PInt (py_int rt v)
      | K_FLOAT \<Rightarrow> map_sum id PFloat (py_float rt v)
      | K_BOOL \<Rightarrow> Inr (PBool (py_bool v))
      | K_STRING \<Rightarrow> Inr (PStr (py_str rt v)))"

definition zero_of :: "prop_kind \<Rightarrow> pyval" where
  "zero_of k = (case k of K_INT \<Rightarrow> PInt 0 | K_FLOAT \<Rightarrow> PFloat (Fin 0)
                | K_BOOL \<Rightarrow> PBool False | K_STRING \<Rightarrow> PStr [])"

text \<open>The \<open>try\<close> block that normalises the stored value; an exception leaves the block as it is.\<close>

definition ensure_type :: "pyrt \<Rightarrow> idblock \<Rightarrow> string \<Rightarrow> kwargs \<Rightarrow> idblock" where
  "ensure_type rt b key kw =
     (case coerce rt (ptype kw) (case props b key of None \<Rightarrow> zero_of (ptype kw) | Some v \<Rightarrow> v) of
        Inl e \<Rightarrow> b
      | Inr v \<Rightarrow> b\<lparr>props := (props b)(key \<mapsto> v)\<rparr>)"

text \<open>The dictionary \<open>data\<close>, as the list of its items in insertion order.\<close>

definition opt_item :: "string \<Rightarrow> pyval option \<Rightarrow> (string \<times> pyval) list" where
  "opt_item k v = (case v of None \<Rightarrow> [] | Some x \<Rightarrow> [(k, x)])"

definition ui_data :: "kwargs \<Rightarrow> (string \<times> pyval) list" where
  "ui_data kw =
     opt_item ''description'' (map_option PStr (desc kw)) @
     (if ptype kw = K_INT \<or> ptype kw = K_FLOAT then
        opt_item ''min'' (min_val kw) @ opt_item ''max'' (max_val kw) @
        opt_item ''soft_min'' (soft_min kw) @ opt_item ''soft_max'' (soft_max kw) @
        opt_item ''default'' (dflt kw) @ opt_item ''subtype'' (map_option PStr (subtype kw))
      else opt_item ''default'' (dflt kw))"

text \<open>The \<open>try\<close> block that applies the UI metadata: the items of \<open>data\<close> override the key's
  metadata; nothing happens when \<open>data\<close> is empty or the facility raises.\<close>

definition apply_ui :: "idblock \<Rightarrow> string \<Rightarrow> kwargs \<Rightarrow> idblock" where
  "apply_ui b key kw =
     (if \<not> ui_api b then b
      else if ui_data kw = [] then b
      else b\<lparr>ui := (ui b)(key := ui b key ++ map_of (ui_data kw))\<rparr>)"

definition idprop_apply_ui :: "pyrt \<Rightarrow> idblock \<Rightarrow> string \<Rightarrow> kwargs \<Rightarrow> pyerror + idblock" where
  "idprop_apply_ui rt b key kw =
     (case create_if_missing rt b key kw of
        Inl e \<Rightarrow> Inl e
      | Inr b1 \<Rightarrow> Inr (apply_ui (ensure_type rt b1 key kw) key kw))"

section \<open>The form state and the operator\<close>

datatype float_subtype = ST_NONE | ST_PERCENTAGE | ST_FACTOR | ST_ANGLE | ST_TIME | ST_DISTANCE

fun subtype_id :: "float_subtype \<Rightarrow> string" where
  "subtype_id ST_NONE = ''NONE''"
| "subtype_id ST_PERCENTAGE = ''PERCENTAGE''"
| "subtype_id ST_FACTOR = ''FACTOR''"
| "subtype_id ST_ANGLE = ''ANGLE''"
| "subtype_id ST_TIME = ''TIME''"
| "subtype_id ST_DISTANCE = ''DISTANCE''"

text \<open>The placement enum; \<open>P_OTHER\<close> stands for any identifier the operator's \<open>else\<close> receives.\<close>

datatype placement = P_OBJECT | P_DATA | P_ACTIVE_MATERIAL | P_ALL_MATERIALS | P_OTHER

record cpg_props =
  count :: int
  prop_type :: prop_kind
  int_default :: int
  int_min :: int
  int_max :: int
  float_default :: pyfloat
  float_min :: pyfloat
  float_max :: pyfloat
  float_soft_min :: pyfloat
  float_soft_max :: pyfloat
  float_subtype :: float_subtype
  bool_default :: bool
  string_default :: string
  string_description :: string
  base_name :: string
  free_prefix :: string
  free_suffix :: string
  auto_increment :: bool
  increment_start_from :: int
  increment_as_prefix :: bool
  placement :: placement
  overwrite_existing :: bool

text \<open>ID blocks are mutable objects shared by reference: a store maps addresses to blocks.\<close>

type_synonym addr = nat
type_synonym store = "addr \<Rightarrow> idblock"

text \<open>The active object: its own ID block, \<open>obj.data\<close>, \<open>obj.active_material\<close> and the
  material of each slot (\<open>None\<close> for an empty slot).\<close>

record bobject =
  obj_block :: addr
  data :: "addr option"
  active_material :: "addr option"
  material_slots :: "addr option list"

datatype cancel_reason =
  NoActiveObject | NoDataBlock | NoActiveMaterial | NoMaterials | EmptyName

text \<open>What \<open>execute\<close> returns and reports: \<open>FINISHED c t\<close> is \<open>{'FINISHED'}\<close> with the report
  "Created c custom propertie(s) on t target(s)."; \<open>CANCELLED r\<close> is \<open>{'CANCELLED'}\<close> with
  the error report of reason \<open>r\<close> (\<open>EmptyName\<close>: "Resulting property name is empty. ...");
  \<open>RAISED e\<close> is an exception leaving the operator.\<close>

datatype outcome = FINISHED int nat | CANCELLED cancel_reason | RAISED pyerror

subsection \<open>Resolving the targets\<close>

text \<open>\<open>d[k] = v\<close> on a dict kept as its item list: an existing key keeps its position.\<close>

fun dict_set :: "'k \<Rightarrow> 'v \<Rightarrow> ('k \<times> 'v) list \<Rightarrow> ('k \<times> 'v) list" where
  "dict_set k v [] = [(k, v)]"
| "dict_set k v ((k', v') # r) = (if k = k' then (k, v) # r else (k', v') # dict_set k v r)"

text \<open>\<open>list({m.name: m for m in mats}.values())\<close>\<close>

definition dedup_by_name :: "store \<Rightarrow> addr list \<Rightarrow> addr list" where
  "dedup_by_name s mats = map snd (foldl (\<lambda>d m. dict_set (name (s m)) m d) [] mats)"

definition resolve_targets :: "cpg_props \<Rightarrow> bobject \<Rightarrow> store \<Rightarrow> cancel_reason + addr list" where
  "resolve_targets p obj s =
     (case placement p of
        P_OBJECT \<Rightarrow> Inr [obj_block obj]
      | P_DATA \<Rightarrow> (case data obj of None \<Rightarrow> Inl NoDataBlock | Some d \<Rightarrow> Inr [d])
      | P_ACTIVE_MATERIAL \<Rightarrow>
          (case active_material obj of None \<Rightarrow> Inl NoActiveMaterial | Some m \<Rightarrow> Inr [m])
      | P_ALL_MATERIALS \<Rightarrow>
          (let mats = List.map_filter (\<lambda>m. m) (material_slots obj)
           in if mats = [] then Inl NoMaterials else Inr (dedup_by_name s mats))
      | P_OTHER \<Rightarrow> Inr [obj_block obj])"

subsection \<open>The loop body\<close>

text \<open>Lines 242 to 249: the property name for the running index \<open>idx\<close>.\<close>

definition build_name :: "cpg_props \<Rightarrow> int \<Rightarrow> string" where
  "build_name p idx =
     (let num = (if auto_increment p then zero_pad idx else []);
          name_parts = (if increment_as_prefix p
                        then [free_prefix p, num, base_name p, free_suffix p]
                        else [free_prefix p, base_name p, num, free_suffix p])
      in concat (filter (\<lambda>part. part \<noteq> []) name_parts))"

text \<open>Lines 256 to 288 and the call's keyword arguments: default and UI values by type.\<close>

definition type_values :: "cpg_props \<Rightarrow> kwargs" where
  "type_values p =
     (let d = (if string_description p \<noteq> [] then strip (string_description p) else []);
          kw0 = \<lparr>ptype = prop_type p, dflt = None, min_val = None, max_val = None,
                 desc = (if d \<noteq> [] then Some d else None), subtype = Some ''NONE'',
                 soft_min = None, soft_max = None\<rparr>
      in case prop_type p of
           K_INT \<Rightarrow>
             (let lo = int_min p; hi = int_max p;
                  (lo, hi) = (if lo > hi then (hi, lo) else (lo, hi))
              in kw0\<lparr>dflt := Some (PInt (int_default p)),
                     min_val := Some (PInt lo), max_val := Some (PInt hi)\<rparr>)
         | K_FLOAT \<Rightarrow>
             (let lo = float_min p; hi = float_max p;
                  slo = float_soft_min p; shi = float_soft_max p;
                  (lo, hi) = (if float_gt lo hi then (hi, lo) else (lo, hi));
                  (slo, shi) = (if float_gt slo shi then (shi, slo) else (slo, shi))
              in kw0\<lparr>dflt := Some (PFloat (float_default p)),
                     min_val := Some (PFloat lo), max_val := Some (PFloat hi),
                     soft_min := Some (PFloat slo), soft_max := Some (PFloat shi),
                     subtype := Some (subtype_id (float_subtype p))\<rparr>)
         | K_BOOL \<Rightarrow> kw0\<lparr>dflt := Some (PBool (bool_default p))\<rparr>
         | K_STRING \<Rightarrow> kw0\<lparr>dflt := Some (PStr (string_default p))\<rparr>)"

text \<open>Lines 291 to 307: the inner loop over the targets. A target that has the key is
  skipped unless overwriting; an exception stops the loop with the store as it stands.\<close>

fun apply_targets ::
  "pyrt \<Rightarrow> cpg_props \<Rightarrow> string \<Rightarrow> kwargs \<Rightarrow> addr list \<Rightarrow> store \<Rightarrow> (pyerror \<times> store) + store" where
  "apply_targets rt p prop_name kw [] s = Inr s"
| "apply_targets rt p prop_name kw (idb # idblocks) s =
     (if prop_name \<in> dom (props (s idb)) \<and> \<not> overwrite_existing p
      then apply_targets rt p prop_name kw idblocks s
      else (case idprop_apply_ui rt (s idb) prop_name kw of
              Inl e \<Rightarrow> Inl (e, s)
            | Inr b \<Rightarrow> apply_targets rt p prop_name kw idblocks (s(idb := b))))"

subsection \<open>The outer loop and \<open>execute\<close>\<close>

text \<open>The state of the \<open>for i in range(props.count)\<close> loop is the running index and the store;
  the loop ends normally, at the empty-name check, or with an exception.\<close>

datatype loop_result = Completed int store | Aborted int store | Crashed pyerror store

fun run_loop :: "pyrt \<Rightarrow> cpg_props \<Rightarrow> addr list \<Rightarrow> nat \<Rightarrow> int \<Rightarrow> store \<Rightarrow> loop_result" where
  "run_loop rt p idblocks 0 idx s = Completed idx s"
| "run_loop rt p idblocks (Suc n) idx s =
     (let prop_name = build_name p idx
      in if prop_name = [] then Aborted idx s
         else (case apply_targets rt p prop_name (type_values p) idblocks s of
                 Inl (e, s') \<Rightarrow> Crashed e s'
               | Inr s' \<Rightarrow> run_loop rt p idblocks n (idx + 1) s'))"

definition start_index :: "cpg_props \<Rightarrow> int" where
  "start_index p = (if increment_start_from p > 0 then increment_start_from p else 1)"

definition execute :: "pyrt \<Rightarrow> cpg_props \<Rightarrow> bobject option \<Rightarrow> store \<Rightarrow> outcome \<times> store" where
  "execute rt p active_object s =
     (case active_object of
        None \<Rightarrow> (CANCELLED NoActiveObject, s)
      | Some obj \<Rightarrow>
          (case resolve_targets p obj s of
             Inl r \<Rightarrow> (CANCELLED r, s)
           | Inr idblocks \<Rightarrow>
               (case run_loop rt p idblocks (nat (count p)) (start_index p) s of
                  Completed idx s' \<Rightarrow> (FINISHED (count p) (length idblocks), s')
                | Aborted idx s' \<Rightarrow> (CANCELLED EmptyName, s')
                | Crashed e s' \<Rightarrow> (RAISED e, s'))))"

subsection \<open>Derived notions used in the statements\<close>

text \<open>The store left by the inner loop, whether it ended normally or with an exception.\<close>

definition targets_store :: "(pyerror \<times> store) + store \<Rightarrow> store" where
  "targets_store r = (case r of Inl (e, s) \<Rightarrow> s | Inr s \<Rightarrow> s)"

definition write_name :: "pyrt \<Rightarrow> cpg_props \<Rightarrow> addr list \<Rightarrow> string \<Rightarrow> store \<Rightarrow> store" where
  "write_name rt p idblocks prop_name s =
     targets_store (apply_targets rt p prop_name (type_values p) idblocks s)"

text \<open>The store after the first \<open>k\<close> iterations of the outer loop started at index \<open>idx\<close>.\<close>

definition after_names :: "pyrt \<Rightarrow> cpg_props \<Rightarrow> addr list \<Rightarrow> int \<Rightarrow> nat \<Rightarrow> store \<Rightarrow> store" where
  "after_names rt p idblocks idx k s =
     fold (\<lambda>i. write_name rt p idblocks (build_name p (idx + int i))) [0..<k] s"

text \<open>The kind of a stored value.\<close>

fun kind_of :: "pyval \<Rightarrow> prop_kind" where
  "kind_of (PInt n) = K_INT"
| "kind_of (PFloat f) = K_FLOAT"
| "kind_of (PBool b) = K_BOOL"
| "kind_of (PStr s) = K_STRING"

text \<open>The store a run of the outer loop leaves, however it ended.\<close>

definition loop_store :: "loop_result \<Rightarrow> store" where
  "loop_store r = (case r of Completed i s \<Rightarrow> s | Aborted i s \<Rightarrow> s | Crashed e s \<Rightarrow> s)"

text \<open>The non-empty parts of a list of name parts, joined without separator.\<close>

definition join_nonempty :: "string list \<Rightarrow> string" where
  "join_nonempty parts = concat (filter (\<lambda>part. part \<noteq> []) parts)"

subsection \<open>Inputs of the examples\<close>

text \<open>The defaults declared by \<open>CPG_Props\<close>; the placement enum starts at its first item.\<close>

definition default_props :: cpg_props where
  "default_props =
     \<lparr>count = 1, prop_type = K_INT, int_default = 0, int_min = 0, int_max = 100,
      float_default = Fin 0, float_min = Fin 0, float_max = Fin 1,
      float_soft_min = Fin 0, float_soft_max = Fin 1, float_subtype = ST_NONE,
      bool_default = False, string_default = [], string_description = [],
      base_name = ''prop'', free_prefix = [], free_suffix = [],
      auto_increment = False, increment_start_from = 0, increment_as_prefix = True,
      placement = P_OBJECT, overwrite_existing = True\<rparr>"

text \<open>A runtime for the closed examples. None of them reaches a conversion between text and
  numbers or from int to float, so the choice is immaterial: \<open>float(n)\<close> is exact and no
  text is numeric.\<close>

definition sample_rt :: pyrt where
  "sample_rt =
     \<lparr>float_of_int = (\<lambda>n. Inr (Fin (of_int n))), float_of_str = (\<lambda>s. Inl ValueError),
      int_of_str = (\<lambda>s. Inl ValueError), str_of_float = (\<lambda>f. ''nan'')\<rparr>"

definition empty_block :: "string \<Rightarrow> idblock" where
  "empty_block nm = \<lparr>name = nm, props = Map.empty, ui = (\<lambda>k. Map.empty), ui_api = True\<rparr>"

text \<open>An object \<open>Cube\<close> (block 0) with mesh data (block 3) and two material slots holding the
  materials \<open>A\<close> (block 1, the active one) and \<open>B\<close> (block 2); no block has a property yet.\<close>

definition cube :: bobject where
  "cube = \<lparr>obj_block = 0, data = Some 3, active_material = Some 1,
           material_slots = [Some 1, Some 2]\<rparr>"

definition scene :: store where
  "scene = (\<lambda>a. empty_block ''Mesh'')
             (0 := empty_block ''Cube'', 1 := empty_block ''A'', 2 := empty_block ''B'')"

text \<open>The scene with a property \<open>x = 7\<close> already on the cube.\<close>

definition scene_x7 :: store where
  "scene_x7 = scene(0 := (empty_block ''Cube'')\<lparr>props := [''x'' \<mapsto> PInt 7]\<rparr>)"

text \<open>The cube's block holding \<open>x = True\<close>, and the keyword arguments of an Int property with
  default 5 and bounds 0 and 10.\<close>

definition block_x_true :: idblock where
  "block_x_true = (empty_block ''Cube'')\<lparr>props := [''x'' \<mapsto> PBool True]\<rparr>"

definition int_5_0_10 :: kwargs where
  "int_5_0_10 = type_values (default_props\<lparr>int_default := 5, int_max := 10\<rparr>)"

text \<open>The scene with both materials named \<open>Mat\<close>, as a local material and one linked from a
  library are: datablock names are unique per library only.\<close>

definition same_name_scene :: store where
  "same_name_scene = (\<lambda>a. empty_block ''Mesh'')
     (0 := empty_block ''Cube'', 1 := empty_block ''Mat'', 2 := empty_block ''Mat'')"

text \<open>The request of the end-to-end example: two Bool properties \<open>flag\<close>, default true, numbered
  as prefix from the default start, on all materials, overwriting.\<close>

definition flag_request :: cpg_props where
  "flag_request = default_props\<lparr>count := 2, prop_type := K_BOOL, bool_default := True,
     base_name := ''flag'', auto_increment := True, increment_as_prefix := True,
     increment_start_from := 0, placement := P_ALL_MATERIALS, overwrite_existing := True\<rparr>"

section \<open>Decimal text: what \<open>str_nat\<close> prints\<close>

lemma digit_cases: "d < 10 \<Longrightarrow> d = 0 \<or> d = 1 \<or> d = 2 \<or> d = 3 \<or> d = 4 \<or> d = 5 \<or> d = 6 \<or> d = 7 \<or> d = 8 \<or> d = (9::nat)"
  by arith

lemma digit_val_digit_char: "d < 10 \<Longrightarrow> digit_val (digit_char d) = d"
  using digit_cases [of d] by (auto simp: digit_val_def digit_char_def)

lemma is_digit_digit_char: "d < 10 \<Longrightarrow> is_digit (digit_char d)"
  using digit_cases [of d] by (auto simp: is_digit_def digit_char_def)

lemma digit_char_zero_iff: "d < 10 \<Longrightarrow> digit_char d = CHR ''0'' \<longleftrightarrow> d = 0"
  using digit_cases [of d] by (auto simp: digit_char_def)

lemma decimal_value_snoc: "decimal_value (ds @ [c]) = 10 * decimal_value ds + digit_val c"
  by (simp add: decimal_value_def)

lemma decimal_value_str_nat: "decimal_value (str_nat n) = n"
proof (induction n rule: str_nat.induct)
  case (1 n)
  show ?case
  proof (cases "n < 10")
    case True
    then show ?thesis
      by (subst str_nat.simps) (simp add: decimal_value_def digit_val_digit_char)
  next
    case False
    with 1 have "decimal_value (str_nat (n div 10)) = n div 10" by simp
    with False show ?thesis
      by (subst str_nat.simps) (simp add: decimal_value_snoc digit_val_digit_char)
  qed
qed

lemma str_nat_digits: "c \<in> set (str_nat n) \<Longrightarrow> is_digit c"
proof (induction n arbitrary: c rule: str_nat.induct)
  case (1 n)
  show ?case
  proof (cases "n < 10")
    case True
    with 1(2) show ?thesis
      by (subst (asm) str_nat.simps) (simp add: is_digit_digit_char)
  next
    case False
    with 1 show ?thesis
      by (subst (asm) (2) str_nat.simps) (auto simp: is_digit_digit_char)
  qed
qed

lemma str_nat_nonempty: "str_nat n \<noteq> []"
  by (subst str_nat.simps) simp

lemma str_nat_no_leading_zero: "0 < n \<Longrightarrow> hd (str_nat n) \<noteq> CHR ''0''"
proof (induction n rule: str_nat.induct)
  case (1 n)
  show ?case
  proof (cases "n < 10")
    case True
    with 1(2) show ?thesis
      by (subst str_nat.simps) (simp add: digit_char_zero_iff)
  next
    case False
    then have "0 < n div 10" by simp
    with 1 False have "hd (str_nat (n div 10)) \<noteq> CHR ''0''" by simp
    with False show ?thesis
      by (subst str_nat.simps) (simp add: str_nat_nonempty)
  qed
qed

lemma decimal_value_zeros: "decimal_value (replicate k (CHR ''0'') @ ds) = decimal_value ds"
proof -
  have "foldl (\<lambda>acc c. 10 * acc + digit_val c) 0 (replicate k (CHR ''0'')) = 0"
    by (induction k) (simp_all add: digit_val_def)
  then show ?thesis by (simp add: decimal_value_def)
qed


section \<open>The loops of the operator\<close>

text \<open>With the keyword arguments that \<open>execute\<close> builds, \<open>idprop_apply_ui\<close> never raises:
  each default already has the kind it is converted to.\<close>

lemma initial_value_type_values:
  "\<exists>v. initial_value rt (ptype (type_values p)) (dflt (type_values p)) = Inr v"
  by (cases "prop_type p") (simp_all add: type_values_def initial_value_def Let_def split: prod.splits)

lemma idprop_apply_ui_type_values: "\<exists>b'. idprop_apply_ui rt b key (type_values p) = Inr b'"
  using initial_value_type_values [of rt p]
  by (auto simp: idprop_apply_ui_def create_if_missing_def)

lemma apply_targets_type_values:
  "apply_targets rt p nm (type_values p) ts s = Inr (write_name rt p ts nm s)"
proof -
  have "\<exists>s'. apply_targets rt p nm (type_values p) ts s = Inr s'"
  proof (induction ts arbitrary: s)
    case Nil
    show ?case by simp
  next
    case (Cons a ts)
    obtain b' where "idprop_apply_ui rt (s a) nm (type_values p) = Inr b'"
      using idprop_apply_ui_type_values by blast
    with Cons show ?case by simp
  qed
  then show ?thesis by (auto simp: write_name_def targets_store_def)
qed

lemma upt_0_Suc_shift: "[0..<Suc k] = 0 # map Suc [0..<k]"
  by (simp add: upt_conv_Cons map_Suc_upt del: upt_Suc)

lemma after_names_Suc:
  "after_names rt p ts idx (Suc k) s =
     after_names rt p ts (idx + 1) k (write_name rt p ts (build_name p idx) s)"
  unfolding after_names_def upt_0_Suc_shift
  by (simp add: fold_map comp_def add.assoc del: upt_Suc) 

lemma run_loop_prefix:
  "(\<forall>j<k. build_name p (idx + int j) \<noteq> []) \<Longrightarrow>
   run_loop rt p ts (k + m) idx s =
     run_loop rt p ts m (idx + int k) (after_names rt p ts idx k s)"
proof (induction k arbitrary: idx s)
  case 0
  show ?case by (simp add: after_names_def)
next
  case (Suc k)
  have ne: "build_name p idx \<noteq> []" using Suc.prems by force
  have rest: "\<forall>j<k. build_name p ((idx + 1) + int j) \<noteq> []"
  proof (intro allI impI)
    fix j assume "j < k"
    then have "build_name p (idx + int (Suc j)) \<noteq> []" using Suc.prems by blast
    moreover have "idx + int (Suc j) = (idx + 1) + int j" by simp
    ultimately show "build_name p ((idx + 1) + int j) \<noteq> []" by metis
  qed
  have "run_loop rt p ts (Suc k + m) idx s =
        run_loop rt p ts (k + m) (idx + 1) (write_name rt p ts (build_name p idx) s)"
    using ne by (simp add: Let_def apply_targets_type_values)
  also have "\<dots> = run_loop rt p ts m ((idx + 1) + int k)
        (after_names rt p ts (idx + 1) k (write_name rt p ts (build_name p idx) s))"
    using Suc.IH [OF rest] .
  also have "(idx + 1) + int k = idx + int (Suc k)" by simp
  finally show ?case by (simp only: after_names_Suc)
qed

lemma zero_pad_nonempty: "zero_pad n \<noteq> []"
  by (simp add: zero_pad_def)

lemma join_has_part: "x \<in> set parts \<Longrightarrow> x \<noteq> [] \<Longrightarrow> concat (filter (\<lambda>part. part \<noteq> []) parts) \<noteq> []"
  by (induction parts) auto

lemma build_name_auto_nonempty: "auto_increment p \<Longrightarrow> build_name p idx \<noteq> []"
proof -
  assume a: "auto_increment p"
  show ?thesis
  proof (cases "increment_as_prefix p")
    case True
    have "concat (filter (\<lambda>part. part \<noteq> []) [free_prefix p, zero_pad idx, base_name p, free_suffix p]) \<noteq> []"
      by (rule join_has_part [of "zero_pad idx"]) (simp_all add: zero_pad_nonempty)
    with a True show ?thesis by (simp only: build_name_def Let_def if_True if_False simp_thms)
  next
    case False
    have "concat (filter (\<lambda>part. part \<noteq> []) [free_prefix p, base_name p, zero_pad idx, free_suffix p]) \<noteq> []"
      by (rule join_has_part [of "zero_pad idx"]) (simp_all add: zero_pad_nonempty)
    with a False show ?thesis by (simp only: build_name_def Let_def if_True if_False simp_thms)
  qed
qed

lemma build_name_plain: "\<not> auto_increment p \<Longrightarrow> build_name p idx = join_nonempty [free_prefix p, base_name p, free_suffix p]"
  by (simp add: build_name_def join_nonempty_def Let_def)

lemma run_loop_completes:
  "(\<forall>j<n. build_name p (idx + int j) \<noteq> []) \<Longrightarrow>
   run_loop rt p ts n idx s = Completed (idx + int n) (after_names rt p ts idx n s)"
  using run_loop_prefix [of n p idx rt ts 0 s] by simp

lemma run_loop_aborts:
  assumes "k < n" and "build_name p (idx + int k) = []"
    and "\<forall>j<k. build_name p (idx + int j) \<noteq> []"
  shows "run_loop rt p ts n idx s = Aborted (idx + int k) (after_names rt p ts idx k s)"
proof -
  define m where "m = n - Suc k"
  have n: "n = k + Suc m" using assms(1) by (simp add: m_def)
  have "run_loop rt p ts (k + Suc m) idx s =
        run_loop rt p ts (Suc m) (idx + int k) (after_names rt p ts idx k s)"
    by (rule run_loop_prefix [OF assms(3)])
  also have "\<dots> = Aborted (idx + int k) (after_names rt p ts idx k s)"
    by (simp only: run_loop.simps Let_def assms(2) if_True simp_thms)
  finally show ?thesis by (simp only: n)
qed

section \<open>What \<open>zero_pad\<close> prints\<close>

lemma zero_pad_1: "zero_pad 1 = ''001_''" by code_simp
lemma zero_pad_2: "zero_pad 2 = ''002_''" by code_simp
lemma zero_pad_3: "zero_pad 3 = ''003_''" by code_simp
lemma zero_pad_1000: "zero_pad 1000 = ''1000_''" by code_simp

lemma zero_pad_shape:
  "0 \<le> idx \<Longrightarrow> zero_pad idx =
     replicate (3 - length (str_nat (nat idx))) (CHR ''0'') @ str_nat (nat idx) @ ''_''"
  by (simp add: zero_pad_def format_03d_def zfill_def)

section \<open>Normalisation of the bounds\<close>

lemma float_gt_le: "float_gt a b \<Longrightarrow> float_le b a"
  by (cases a; cases b) simp_all

lemma float_not_gt_le: "a \<noteq> NaN \<Longrightarrow> b \<noteq> NaN \<Longrightarrow> \<not> float_gt a b \<Longrightarrow> float_le a b"
  by (cases a; cases b) simp_all

lemma type_values_int:
  "prop_type p = K_INT \<Longrightarrow>
   min_val (type_values p) = Some (PInt (min (int_min p) (int_max p))) \<and>
   max_val (type_values p) = Some (PInt (max (int_min p) (int_max p)))"
  by (simp add: type_values_def Let_def min_def max_def)

lemma type_values_float_hard:
  "prop_type p = K_FLOAT \<Longrightarrow>
   min_val (type_values p) =
     Some (PFloat (if float_gt (float_min p) (float_max p) then float_max p else float_min p)) \<and>
   max_val (type_values p) =
     Some (PFloat (if float_gt (float_min p) (float_max p) then float_min p else float_max p))"
  by (simp add: type_values_def Let_def)

lemma type_values_float_soft:
  "prop_type p = K_FLOAT \<Longrightarrow>
   soft_min (type_values p) =
     Some (PFloat (if float_gt (float_soft_min p) (float_soft_max p)
                   then float_soft_max p else float_soft_min p)) \<and>
   soft_max (type_values p) =
     Some (PFloat (if float_gt (float_soft_min p) (float_soft_max p)
                   then float_soft_min p else float_soft_max p))"
  by (simp add: type_values_def Let_def)

lemma swap_ordered:
  "a \<noteq> NaN \<Longrightarrow> b \<noteq> NaN \<Longrightarrow>
   float_le (if float_gt a b then b else a) (if float_gt a b then a else b)"
  by (simp add: float_gt_le float_not_gt_le)

text \<open>
  Claim C6, as amended. For an Int descriptor the bounds passed on are the smaller and the
  larger of \<open>int_min\<close> and \<open>int_max\<close>, so \<open>min \<le> max\<close>. For every Float descriptor the hard
  bounds are swapped exactly when \<open>min > max\<close>, and the soft bounds, independently, exactly
  when \<open>soft_min > soft_max\<close>; the pair that results is ordered whenever neither bound of
  that pair is NaN.
\<close>

theorem type_values_bounds_ordered:
  "(prop_type p = K_INT \<longrightarrow>
      min_val (type_values p) = Some (PInt (min (int_min p) (int_max p))) \<and>
      max_val (type_values p) = Some (PInt (max (int_min p) (int_max p))) \<and>
      min (int_min p) (int_max p) \<le> max (int_min p) (int_max p)) \<and>
   (prop_type p = K_FLOAT \<longrightarrow>
      min_val (type_values p) =
        Some (PFloat (if float_gt (float_min p) (float_max p) then float_max p else float_min p)) \<and>
      max_val (type_values p) =
        Some (PFloat (if float_gt (float_min p) (float_max p) then float_min p else float_max p)) \<and>
      soft_min (type_values p) =
        Some (PFloat (if float_gt (float_soft_min p) (float_soft_max p)
                      then float_soft_max p else float_soft_min p)) \<and>
      soft_max (type_values p) =
        Some (PFloat (if float_gt (float_soft_min p) (float_soft_max p)
                      then float_soft_min p else float_soft_max p)) \<and>
      (float_min p \<noteq> NaN \<and> float_max p \<noteq> NaN \<longrightarrow>
         float_le (if float_gt (float_min p) (float_max p) then float_max p else float_min p)
                  (if float_gt (float_min p) (float_max p) then float_min p else float_max p)) \<and>
      (float_soft_min p \<noteq> NaN \<and> float_soft_max p \<noteq> NaN \<longrightarrow>
         float_le (if float_gt (float_soft_min p) (float_soft_max p)
                   then float_soft_max p else float_soft_min p)
                  (if float_gt (float_soft_min p) (float_soft_max p)
                   then float_soft_min p else float_soft_max p)))"
proof (intro conjI impI)
  assume "prop_type p = K_INT"
  then show "min_val (type_values p) = Some (PInt (min (int_min p) (int_max p)))"
    and "max_val (type_values p) = Some (PInt (max (int_min p) (int_max p)))"
    by (simp_all add: type_values_int)
next
  show "min (int_min p) (int_max p) \<le> max (int_min p) (int_max p)" by simp
next
  assume f: "prop_type p = K_FLOAT"
  from type_values_float_hard [OF f]
  show "min_val (type_values p) =
        Some (PFloat (if float_gt (float_min p) (float_max p) then float_max p else float_min p))"
    and "max_val (type_values p) =
        Some (PFloat (if float_gt (float_min p) (float_max p) then float_min p else float_max p))"
    by blast+
  from type_values_float_soft [OF f]
  show "soft_min (type_values p) =
        Some (PFloat (if float_gt (float_soft_min p) (float_soft_max p)
                      then float_soft_max p else float_soft_min p))"
    and "soft_max (type_values p) =
        Some (PFloat (if float_gt (float_soft_min p) (float_soft_max p)
                      then float_soft_min p else float_soft_max p))"
    by blast+
next
  assume "float_min p \<noteq> NaN \<and> float_max p \<noteq> NaN"
  then show "float_le (if float_gt (float_min p) (float_max p) then float_max p else float_min p)
                  (if float_gt (float_min p) (float_max p) then float_min p else float_max p)"
    by (intro swap_ordered) simp_all
next
  assume "float_soft_min p \<noteq> NaN \<and> float_soft_max p \<noteq> NaN"
  then show "float_le (if float_gt (float_soft_min p) (float_soft_max p)
                   then float_soft_max p else float_soft_min p)
                  (if float_gt (float_soft_min p) (float_soft_max p)
                   then float_soft_min p else float_soft_max p)"
    by (intro swap_ordered) simp_all
qed

text \<open>Caller-supplied \<open>min = 10, max = 0\<close> becomes \<open>min = 0, max = 10\<close>, for both kinds.\<close>

theorem type_values_bounds_ordered_witness:
  "min_val (type_values (default_props\<lparr>int_min := 10, int_max := 0\<rparr>)) = Some (PInt 0) \<and>
   max_val (type_values (default_props\<lparr>int_min := 10, int_max := 0\<rparr>)) = Some (PInt 10) \<and>
   min_val (type_values (default_props\<lparr>prop_type := K_FLOAT, float_min := Fin 10, float_max := Fin 0,
       float_soft_min := Fin 5, float_soft_max := Fin 2\<rparr>)) = Some (PFloat (Fin 0)) \<and>
   max_val (type_values (default_props\<lparr>prop_type := K_FLOAT, float_min := Fin 10, float_max := Fin 0,
       float_soft_min := Fin 5, float_soft_max := Fin 2\<rparr>)) = Some (PFloat (Fin 10)) \<and>
   soft_min (type_values (default_props\<lparr>prop_type := K_FLOAT, float_min := Fin 10, float_max := Fin 0,
       float_soft_min := Fin 5, float_soft_max := Fin 2\<rparr>)) = Some (PFloat (Fin 2)) \<and>
   soft_max (type_values (default_props\<lparr>prop_type := K_FLOAT, float_min := Fin 10, float_max := Fin 0,
       float_soft_min := Fin 5, float_soft_max := Fin 2\<rparr>)) = Some (PFloat (Fin 5))"
  using type_values_bounds_ordered [of "default_props\<lparr>int_min := 10, int_max := 0\<rparr>"]
    type_values_bounds_ordered [of "default_props\<lparr>prop_type := K_FLOAT, float_min := Fin 10,
       float_max := Fin 0, float_soft_min := Fin 5, float_soft_max := Fin 2\<rparr>"]
  by (auto simp: default_props_def)

text \<open>
  Claim C6 as stated fails for a Float descriptor with a NaN bound: \<open>nan > 1.0\<close> is false,
  so nothing is swapped, and \<open>nan <= 1.0\<close> is false as well.
\<close>

theorem type_values_nan_bounds_unordered:
  "min_val (type_values (default_props\<lparr>prop_type := K_FLOAT, float_min := NaN\<rparr>)) = Some (PFloat NaN) \<and>
   max_val (type_values (default_props\<lparr>prop_type := K_FLOAT, float_min := NaN\<rparr>)) = Some (PFloat (Fin 1)) \<and>
   \<not> float_le NaN (Fin 1)"
  by (simp add: type_values_def default_props_def Let_def)

section \<open>Runs of the operator\<close>

lemma execute_completes:
  assumes "resolve_targets p obj s = Inr ts"
    and "\<forall>j<nat (count p). build_name p (start_index p + int j) \<noteq> []"
  shows "execute rt p (Some obj) s =
     (FINISHED (count p) (length ts), after_names rt p ts (start_index p) (nat (count p)) s)"
  by (simp add: execute_def assms(1) run_loop_completes [OF assms(2)])

lemma execute_aborts:
  assumes "resolve_targets p obj s = Inr ts"
    and "k < nat (count p)" and "build_name p (start_index p + int k) = []"
    and "\<forall>j<k. build_name p (start_index p + int j) \<noteq> []"
  shows "execute rt p (Some obj) s =
     (CANCELLED EmptyName, after_names rt p ts (start_index p) k s)"
  by (simp add: execute_def assms(1) run_loop_aborts [OF assms(2,3,4)])

lemma resolve_targets_not_empty_name: "resolve_targets p obj s \<noteq> Inl EmptyName"
  by (cases "placement p")
     (auto simp: resolve_targets_def Let_def split: option.splits)

lemma run_loop_Aborted:
  assumes "run_loop rt p ts n idx s = Aborted i s'"
  shows "s' = s \<and> \<not> auto_increment p \<and> build_name p idx = []"
proof -
  have na: "\<not> auto_increment p"
  proof
    assume "auto_increment p"
    then have "\<forall>j<n. build_name p (idx + int j) \<noteq> []" by (simp add: build_name_auto_nonempty)
    from run_loop_completes [OF this] assms show False by simp
  qed
  have same: "build_name p j = join_nonempty [free_prefix p, base_name p, free_suffix p]" for j
    using na by (rule build_name_plain)
  have e: "build_name p idx = []"
  proof (rule ccontr)
    assume "build_name p idx \<noteq> []"
    then have "\<forall>j<n. build_name p (idx + int j) \<noteq> []" by (simp add: same)
    from run_loop_completes [OF this] assms show False by simp
  qed
  have "n \<noteq> 0" using assms by (cases n) simp_all
  then obtain m where "n = Suc m" by (cases n) simp_all
  with e assms have "s' = s" by (simp add: Let_def)
  with na e show ?thesis by simp
qed

lemma resolve_cube_object:
  "placement p = P_OBJECT \<Longrightarrow> resolve_targets p cube s = Inr [0]"
  by (simp add: resolve_targets_def cube_def)

section \<open>Generated names\<close>

text \<open>
  Claim C1. With \<open>auto_increment\<close> on, the name built for the running index \<open>idx\<close> joins,
  without separator, the non-empty parts among prefix, number token, base name, suffix (number
  token after the base name when \<open>increment_as_prefix\<close> is off). A run on resolved targets
  finishes, and its \<open>i\<close>-th iteration writes the name built for \<open>start_index p + i\<close>, where the
  start index is \<open>increment_start_from\<close> if positive and 1 otherwise. The number token is the
  decimal text of the index (digits only, no leading zero, reading back as the index), padded
  with zeros on the left to at least 3 digits and never truncated, followed by an underscore.
\<close>

theorem auto_increment_names:
  assumes "auto_increment p"
  shows "build_name p idx =
       join_nonempty (if increment_as_prefix p
                      then [free_prefix p, zero_pad idx, base_name p, free_suffix p]
                      else [free_prefix p, base_name p, zero_pad idx, free_suffix p]) \<and>
     start_index p = (if 0 < increment_start_from p then increment_start_from p else 1) \<and>
     (resolve_targets p obj s = Inr ts \<longrightarrow>
        execute rt p (Some obj) s =
          (FINISHED (count p) (length ts),
           fold (\<lambda>i. write_name rt p ts (build_name p (start_index p + int i)))
                [0..<nat (count p)] s)) \<and>
     (0 \<le> idx \<longrightarrow>
        zero_pad idx =
          replicate (3 - length (str_nat (nat idx))) (CHR ''0'') @ str_nat (nat idx) @ ''_'' \<and>
        decimal_value (str_nat (nat idx)) = nat idx \<and>
        (\<forall>c\<in>set (str_nat (nat idx)). is_digit c) \<and>
        (0 < idx \<longrightarrow> hd (str_nat (nat idx)) \<noteq> CHR ''0'')) \<and>
     zero_pad 1 = ''001_'' \<and> zero_pad 1000 = ''1000_''"
proof (intro conjI impI)
  show "build_name p idx =
       join_nonempty (if increment_as_prefix p
                      then [free_prefix p, zero_pad idx, base_name p, free_suffix p]
                      else [free_prefix p, base_name p, zero_pad idx, free_suffix p])"
    using assms by (simp add: build_name_def join_nonempty_def Let_def)
  show "start_index p = (if 0 < increment_start_from p then increment_start_from p else 1)"
    by (simp add: start_index_def)
  show "zero_pad 1 = ''001_''" by (rule zero_pad_1)
  show "zero_pad 1000 = ''1000_''" by (rule zero_pad_1000)
next
  assume r: "resolve_targets p obj s = Inr ts"
  have "\<forall>j<nat (count p). build_name p (start_index p + int j) \<noteq> []"
    using assms by (simp add: build_name_auto_nonempty)
  from execute_completes [OF r this]
  show "execute rt p (Some obj) s =
          (FINISHED (count p) (length ts),
           fold (\<lambda>i. write_name rt p ts (build_name p (start_index p + int i)))
                [0..<nat (count p)] s)"
    by (simp only: after_names_def)
next
  assume "0 \<le> idx"
  then show "zero_pad idx =
          replicate (3 - length (str_nat (nat idx))) (CHR ''0'') @ str_nat (nat idx) @ ''_''"
    by (rule zero_pad_shape)
  show "decimal_value (str_nat (nat idx)) = nat idx" by (rule decimal_value_str_nat)
  show "\<forall>c\<in>set (str_nat (nat idx)). is_digit c" by (simp add: str_nat_digits)
next
  assume "0 < idx"
  then show "hd (str_nat (nat idx)) \<noteq> CHR ''0''" by (simp add: str_nat_no_leading_zero)
qed

text \<open>Three names for base name \<open>prop\<close>, numbered before and after the base name.\<close>

theorem auto_increment_names_witness:
  "auto_increment (default_props\<lparr>auto_increment := True, count := 3\<rparr>) \<and>
   start_index (default_props\<lparr>auto_increment := True, count := 3\<rparr>) = 1 \<and>
   build_name (default_props\<lparr>auto_increment := True, count := 3\<rparr>) 1 = ''001_prop'' \<and>
   build_name (default_props\<lparr>auto_increment := True, count := 3\<rparr>) 2 = ''002_prop'' \<and>
   build_name (default_props\<lparr>auto_increment := True, count := 3\<rparr>) 3 = ''003_prop'' \<and>
   build_name (default_props\<lparr>auto_increment := True, count := 3, increment_as_prefix := False\<rparr>) 1
     = ''prop001_'' \<and>
   fst (execute sample_rt (default_props\<lparr>auto_increment := True, count := 3\<rparr>) (Some cube) scene)
     = FINISHED 3 1"
proof -
  let ?p = "default_props\<lparr>auto_increment := True, count := 3\<rparr>"
  let ?q = "default_props\<lparr>auto_increment := True, count := 3, increment_as_prefix := False\<rparr>"
  have h: "auto_increment ?p" and hq: "auto_increment ?q" by (simp_all add: default_props_def)
  have r: "resolve_targets ?p cube scene = Inr [0]"
    by (rule resolve_cube_object) (simp add: default_props_def)
  note t = auto_increment_names [OF h, where obj = cube and s = scene and ts = "[0]" and rt = sample_rt]
  from t [where idx = 1] have 1: "build_name ?p 1 = ''001_prop''" and s: "start_index ?p = 1"
    and e: "fst (execute sample_rt ?p (Some cube) scene) = FINISHED 3 1"
    using r by (simp_all add: join_nonempty_def zero_pad_1 default_props_def)
  from t [where idx = 2] have 2: "build_name ?p 2 = ''002_prop''"
    by (simp add: join_nonempty_def zero_pad_2 default_props_def)
  from t [where idx = 3] have 3: "build_name ?p 3 = ''003_prop''"
    by (simp add: join_nonempty_def zero_pad_3 default_props_def)
  from auto_increment_names [OF hq, where idx = 1] have 4: "build_name ?q 1 = ''prop001_''"
    by (simp add: join_nonempty_def zero_pad_1 default_props_def)
  from h s 1 2 3 4 e show ?thesis by (simp only: simp_thms)
qed

text \<open>
  Claim C7. With \<open>auto_increment\<close> off, every name is the join of the non-empty parts among
  prefix, base name and suffix, whatever the running index, the start index and the numbering
  position. When that name is not empty, each iteration still continues with the index
  advanced by 1, and the loop over \<open>n\<close> iterations ends with index \<open>idx + n\<close> after writing
  the same name \<open>n\<close> times.
\<close>

theorem plain_names:
  assumes "\<not> auto_increment p"
  shows "build_name p idx = join_nonempty [free_prefix p, base_name p, free_suffix p] \<and>
     build_name (p\<lparr>increment_start_from := k, increment_as_prefix := b\<rparr>) idx' = build_name p idx \<and>
     (join_nonempty [free_prefix p, base_name p, free_suffix p] \<noteq> [] \<longrightarrow>
        run_loop rt p ts (Suc n) idx s =
          run_loop rt p ts n (idx + 1)
            (write_name rt p ts (join_nonempty [free_prefix p, base_name p, free_suffix p]) s) \<and>
        run_loop rt p ts n idx s =
          Completed (idx + int n)
            (fold (\<lambda>i. write_name rt p ts (join_nonempty [free_prefix p, base_name p, free_suffix p]))
                  [0..<n] s))"
proof (intro conjI impI)
  let ?nm = "join_nonempty [free_prefix p, base_name p, free_suffix p]"
  show n: "build_name p idx = ?nm" using assms by (rule build_name_plain)
  show "build_name (p\<lparr>increment_start_from := k, increment_as_prefix := b\<rparr>) idx' = build_name p idx"
    using assms by (simp add: build_name_def Let_def)
  assume ne: "?nm \<noteq> []"
  have all: "build_name p j = ?nm" for j using assms by (rule build_name_plain)
  show "run_loop rt p ts (Suc n) idx s = run_loop rt p ts n (idx + 1) (write_name rt p ts ?nm s)"
    using ne by (simp add: all Let_def apply_targets_type_values)
  have "\<forall>j<n. build_name p (idx + int j) \<noteq> []" using ne by (simp add: all)
  from run_loop_completes [OF this]
  show "run_loop rt p ts n idx s = Completed (idx + int n) (fold (\<lambda>i. write_name rt p ts ?nm) [0..<n] s)"
    by (simp only: after_names_def all)
qed

text \<open>Prefix \<open>a_\<close>, base name \<open>prop\<close>, suffix \<open>_b\<close>: the same name twice, index 1 to 3.\<close>

theorem plain_names_witness:
  "\<not> auto_increment (default_props\<lparr>free_prefix := ''a_'', free_suffix := ''_b''\<rparr>) \<and>
   build_name (default_props\<lparr>free_prefix := ''a_'', free_suffix := ''_b''\<rparr>) 1 = ''a_prop_b'' \<and>
   build_name (default_props\<lparr>free_prefix := ''a_'', free_suffix := ''_b''\<rparr>) 2 = ''a_prop_b'' \<and>
   (\<exists>s'. run_loop sample_rt (default_props\<lparr>free_prefix := ''a_'', free_suffix := ''_b''\<rparr>) [0] 2 1 scene
           = Completed 3 s')"
proof -
  let ?p = "default_props\<lparr>free_prefix := ''a_'', free_suffix := ''_b''\<rparr>"
  have h: "\<not> auto_increment ?p" by (simp add: default_props_def)
  note t = plain_names [OF h, where rt = sample_rt and ts = "[0]" and s = scene and n = 2]
  from t [where idx = 1] have 1: "build_name ?p 1 = ''a_prop_b''"
    and l: "\<exists>s'. run_loop sample_rt ?p [0] 2 1 scene = Completed 3 s'"
    by (simp_all add: join_nonempty_def default_props_def)
  from t [where idx = 2] have 2: "build_name ?p 2 = ''a_prop_b''"
    by (simp add: join_nonempty_def default_props_def)
  from h 1 2 l show ?thesis by (simp only: simp_thms)
qed

section \<open>The empty-name check\<close>

text \<open>
  Claim C5. When the name of iteration \<open>k\<close> is the first empty one, the run is cancelled with
  the empty-name report; the store is the one left by the iterations before \<open>k\<close>, so nothing
  is written for that name or a later one and earlier writes stay. In particular a run of at
  least one item with \<open>auto_increment\<close> off and base name, prefix and suffix all empty is
  cancelled with the store untouched.
\<close>

theorem empty_name_aborts:
  "(resolve_targets p obj s = Inr ts \<and> k < nat (count p) \<and>
    build_name p (start_index p + int k) = [] \<and>
    (\<forall>j<k. build_name p (start_index p + int j) \<noteq> []) \<longrightarrow>
      execute rt p (Some obj) s =
        (CANCELLED EmptyName,
         fold (\<lambda>i. write_name rt p ts (build_name p (start_index p + int i))) [0..<k] s)) \<and>
   (resolve_targets p obj s = Inr ts \<and> 1 \<le> count p \<and> \<not> auto_increment p \<and>
    base_name p = [] \<and> free_prefix p = [] \<and> free_suffix p = [] \<longrightarrow>
      execute rt p (Some obj) s = (CANCELLED EmptyName, s))"
proof (intro conjI impI)
  assume a: "resolve_targets p obj s = Inr ts \<and> k < nat (count p) \<and>
    build_name p (start_index p + int k) = [] \<and>
    (\<forall>j<k. build_name p (start_index p + int j) \<noteq> [])"
  then have "execute rt p (Some obj) s =
     (CANCELLED EmptyName, after_names rt p ts (start_index p) k s)"
    by (intro execute_aborts) simp_all
  then show "execute rt p (Some obj) s =
        (CANCELLED EmptyName,
         fold (\<lambda>i. write_name rt p ts (build_name p (start_index p + int i))) [0..<k] s)"
    by (simp only: after_names_def)
next
  assume a: "resolve_targets p obj s = Inr ts \<and> 1 \<le> count p \<and> \<not> auto_increment p \<and>
    base_name p = [] \<and> free_prefix p = [] \<and> free_suffix p = []"
  then have e: "build_name p (start_index p + int 0) = []"
    by (simp add: build_name_plain join_nonempty_def)
  have "execute rt p (Some obj) s =
     (CANCELLED EmptyName, after_names rt p ts (start_index p) 0 s)"
    using a e by (intro execute_aborts) simp_all
  then show "execute rt p (Some obj) s = (CANCELLED EmptyName, s)"
    by (simp add: after_names_def)
qed

text \<open>All name parts empty on the cube: cancelled, the scene as it was.\<close>

theorem empty_name_aborts_witness:
  "execute sample_rt (default_props\<lparr>base_name := []\<rparr>) (Some cube) scene =
     (CANCELLED EmptyName, scene)"
proof -
  let ?p = "default_props\<lparr>base_name := []\<rparr>"
  have r: "resolve_targets ?p cube scene = Inr [0]"
    by (rule resolve_cube_object) (simp add: default_props_def)
  have c: "1 \<le> count ?p" "\<not> auto_increment ?p" "base_name ?p = []" "free_prefix ?p = []"
    "free_suffix ?p = []" by (simp_all add: default_props_def)
  have k: "0 < nat (count ?p)" "build_name ?p (start_index ?p + int 0) = []"
    "\<forall>j<0::nat. build_name ?p (start_index ?p + int j) \<noteq> []"
    by (simp_all add: default_props_def build_name_def Let_def)
  from empty_name_aborts [of ?p cube scene "[0]" 0 sample_rt] r c k
  show ?thesis by simp
qed

text \<open>
  Claim C10. A run cancelled for an empty name has modified no container: the number token is
  never empty, so \<open>auto_increment\<close> is off, every iteration builds the same name, and the
  check fails on the first one, before any write.
\<close>

theorem empty_name_atomic:
  "(execute rt p active_object s = (CANCELLED EmptyName, s') \<longrightarrow>
      s' = s \<and> \<not> auto_increment p \<and> build_name p (start_index p) = []) \<and>
   (auto_increment p \<longrightarrow> build_name p idx \<noteq> []) \<and>
   (\<not> auto_increment p \<longrightarrow> build_name p idx = build_name p (start_index p))"
proof (intro conjI impI)
  assume e: "execute rt p active_object s = (CANCELLED EmptyName, s')"
  then obtain obj where ao: "active_object = Some obj"
    by (cases active_object) (simp_all add: execute_def)
  from e ao obtain ts where r: "resolve_targets p obj s = Inr ts"
    using resolve_targets_not_empty_name [of p obj s]
    by (cases "resolve_targets p obj s") (auto simp: execute_def)
  from e ao r obtain i where "run_loop rt p ts (nat (count p)) (start_index p) s = Aborted i s'"
    by (cases "run_loop rt p ts (nat (count p)) (start_index p) s") (simp_all add: execute_def)
  from run_loop_Aborted [OF this]
  show "s' = s" and "\<not> auto_increment p" and "build_name p (start_index p) = []" by simp_all
next
  assume "auto_increment p"
  then show "build_name p idx \<noteq> []" by (rule build_name_auto_nonempty)
next
  assume "\<not> auto_increment p"
  then show "build_name p idx = build_name p (start_index p)" by (simp add: build_name_plain)
qed

text \<open>The cancelled run on the cube satisfies the hypothesis and leaves the scene unchanged.\<close>

theorem empty_name_atomic_witness:
  "execute sample_rt (default_props\<lparr>base_name := []\<rparr>) (Some cube) scene =
     (CANCELLED EmptyName, scene) \<and>
   \<not> auto_increment (default_props\<lparr>base_name := []\<rparr>) \<and>
   build_name (default_props\<lparr>base_name := []\<rparr>) (start_index (default_props\<lparr>base_name := []\<rparr>)) = []"
proof -
  let ?p = "default_props\<lparr>base_name := []\<rparr>"
  have r: "resolve_targets ?p cube scene = Inr [0]"
    by (rule resolve_cube_object) (simp add: default_props_def)
  have k: "0 < nat (count ?p)" "build_name ?p (start_index ?p + int 0) = []"
    "\<forall>j<0::nat. build_name ?p (start_index ?p + int j) \<noteq> []"
    by (simp_all add: default_props_def build_name_def Let_def)
  have e: "execute sample_rt ?p (Some cube) scene = (CANCELLED EmptyName, scene)"
    using execute_aborts [OF r k, of sample_rt] by (simp add: after_names_def)
  with empty_name_atomic [of sample_rt ?p "Some cube" scene scene] show ?thesis by simp
qed

section \<open>Creating, coercing and skipping\<close>

lemma map_sum_Inr: "map_sum id c x = Inr w \<Longrightarrow> \<exists>n. x = Inr n \<and> w = c n"
  by (cases x) auto

lemma coerce_fixed: "coerce rt k v = Inr w \<Longrightarrow> coerce rt k w = Inr w"
proof (cases k)
  case K_INT
  assume "coerce rt k v = Inr w"
  with K_INT obtain n where "w = PInt n" by (auto simp: coerce_def dest: map_sum_Inr)
  with K_INT show ?thesis by (simp add: coerce_def)
next
  case K_FLOAT
  assume "coerce rt k v = Inr w"
  with K_FLOAT obtain f where "w = PFloat f" by (auto simp: coerce_def dest: map_sum_Inr)
  with K_FLOAT show ?thesis by (simp add: coerce_def)
next
  case K_BOOL
  assume "coerce rt k v = Inr w"
  with K_BOOL show ?thesis by (auto simp: coerce_def)
next
  case K_STRING
  assume "coerce rt k v = Inr w"
  with K_STRING show ?thesis by (auto simp: coerce_def)
qed

lemma initial_value_coerce:
  "initial_value rt k d = coerce rt k (case d of None \<Rightarrow> zero_of k | Some v \<Rightarrow> v)"
  by (cases k; cases d) (simp_all add: initial_value_def coerce_def zero_of_def)

lemma initial_value_fixed: "initial_value rt k d = Inr w \<Longrightarrow> coerce rt k w = Inr w"
  by (simp add: initial_value_coerce coerce_fixed)

lemma create_if_missing_present:
  "props b key = Some old \<Longrightarrow> create_if_missing rt b key kw = Inr b"
  by (simp add: create_if_missing_def dom_def)

lemma ensure_type_present:
  "props b key = Some old \<Longrightarrow>
   ensure_type rt b key kw =
     b\<lparr>props := (props b)(key \<mapsto> (case coerce rt (ptype kw) old of Inl e \<Rightarrow> old | Inr v \<Rightarrow> v))\<rparr>"
  by (cases "coerce rt (ptype kw) old") (simp_all add: ensure_type_def map_upd_triv)

lemma apply_ui_fields:
  "props (apply_ui b key kw) = props b" "name (apply_ui b key kw) = name b"
  "ui_api (apply_ui b key kw) = ui_api b"
  "ui (apply_ui b key kw) =
     (if ui_api b then (ui b)(key := ui b key ++ map_of (ui_data kw)) else ui b)"
  by (simp_all add: apply_ui_def)

lemma ensure_type_fields:
  "name (ensure_type rt b key kw) = name b" "ui_api (ensure_type rt b key kw) = ui_api b"
  "ui (ensure_type rt b key kw) = ui b"
  by (simp_all add: ensure_type_def split: sum.splits)

lemma idprop_apply_ui_present:
  "props b key = Some old \<Longrightarrow>
   idprop_apply_ui rt b key kw =
     Inr (apply_ui (b\<lparr>props := (props b)(key \<mapsto>
            (case coerce rt (ptype kw) old of Inl e \<Rightarrow> old | Inr v \<Rightarrow> v))\<rparr>) key kw)"
  by (simp add: idprop_apply_ui_def create_if_missing_present ensure_type_present)

text \<open>What the conversions give, case by case, and the items of \<open>data\<close>, field by field.\<close>

lemma map_of_opt_item: "map_of (opt_item k v) f = (if f = k then v else None)"
  by (cases v) (simp_all add: opt_item_def)

lemma map_of_opt_item_append:
  "map_of (opt_item k v @ r) f = (if f = k \<and> v \<noteq> None then v else map_of r f)"
  by (cases v) (simp_all add: opt_item_def)

lemma option_case_id: "(case v of None \<Rightarrow> None | Some x \<Rightarrow> Some x) = v"
  by (cases v) simp_all

lemma map_of_ui_data:
  "map_of (ui_data kw) =
     (\<lambda>f. if f = ''description'' then map_option PStr (desc kw)
          else if ptype kw = K_INT \<or> ptype kw = K_FLOAT then
            (if f = ''min'' then min_val kw else if f = ''max'' then max_val kw
             else if f = ''soft_min'' then soft_min kw else if f = ''soft_max'' then soft_max kw
             else if f = ''default'' then dflt kw
             else if f = ''subtype'' then map_option PStr (subtype kw) else None)
          else (if f = ''default'' then dflt kw else None))"
proof (rule ext)
  fix f
  show "map_of (ui_data kw) f =
     (if f = ''description'' then map_option PStr (desc kw)
          else if ptype kw = K_INT \<or> ptype kw = K_FLOAT then
            (if f = ''min'' then min_val kw else if f = ''max'' then max_val kw
             else if f = ''soft_min'' then soft_min kw else if f = ''soft_max'' then soft_max kw
             else if f = ''default'' then dflt kw
             else if f = ''subtype'' then map_option PStr (subtype kw) else None)
          else (if f = ''default'' then dflt kw else None))"
    by (simp add: ui_data_def map_of_opt_item map_of_opt_item_append option_case_id
          del: map_of_append)
qed

lemma coerce_table:
  "(case coerce rt k old of Inl e \<Rightarrow> old | Inr v \<Rightarrow> v) =
     (case k of
        K_INT \<Rightarrow>
          (case old of
             PInt n \<Rightarrow> PInt n
           | PBool t \<Rightarrow> PInt (if t then 1 else 0)
           | PFloat f \<Rightarrow> (case f of Fin r \<Rightarrow> PInt (if 0 \<le> r then \<lfloor>r\<rfloor> else \<lceil>r\<rceil>)
                          | PosInf \<Rightarrow> old | NegInf \<Rightarrow> old | NaN \<Rightarrow> old)
           | PStr s \<Rightarrow> (case int_of_str rt s of Inl e \<Rightarrow> old | Inr n \<Rightarrow> PInt n))
      | K_FLOAT \<Rightarrow>
          (case old of
             PInt n \<Rightarrow> (case float_of_int rt n of Inl e \<Rightarrow> old | Inr f \<Rightarrow> PFloat f)
           | PBool t \<Rightarrow> PFloat (Fin (if t then 1 else 0))
           | PFloat f \<Rightarrow> PFloat f
           | PStr s \<Rightarrow> (case float_of_str rt s of Inl e \<Rightarrow> old | Inr f \<Rightarrow> PFloat f))
      | K_BOOL \<Rightarrow>
          PBool (case old of PInt n \<Rightarrow> n \<noteq> 0 | PBool t \<Rightarrow> t
                 | PFloat f \<Rightarrow> f \<noteq> Fin 0 | PStr s \<Rightarrow> s \<noteq> [])
      | K_STRING \<Rightarrow>
          PStr (case old of PInt n \<Rightarrow> str_int n
                | PBool t \<Rightarrow> (if t then ''True'' else ''False'')
                | PFloat f \<Rightarrow> str_of_float rt f | PStr s \<Rightarrow> s))"
proof (cases k)
  case K_INT
  show ?thesis
  proof (cases old)
    case (PFloat f)
    with K_INT show ?thesis by (cases f) (simp_all add: coerce_def)
  next
    case (PStr s)
    with K_INT show ?thesis by (cases "int_of_str rt s") (simp_all add: coerce_def)
  qed (simp_all add: K_INT coerce_def)
next
  case K_FLOAT
  show ?thesis
  proof (cases old)
    case (PInt n)
    with K_FLOAT show ?thesis by (cases "float_of_int rt n") (simp_all add: coerce_def)
  next
    case (PStr s)
    with K_FLOAT show ?thesis by (cases "float_of_str rt s") (simp_all add: coerce_def)
  qed (simp_all add: K_FLOAT coerce_def)
next
  case K_BOOL
  then show ?thesis by (cases old) (simp_all add: coerce_def)
next
  case K_STRING
  then show ?thesis by (cases old) (simp_all add: coerce_def)
qed

lemma coerce_kind: "coerce rt k old = Inr v \<Longrightarrow> kind_of v = k"
  by (cases k) (auto simp: coerce_def dest: map_sum_Inr)

text \<open>
  Claim C3, as amended. On a key that exists, \<open>idprop_apply_ui\<close> returns normally. The stored
  value becomes the prior value converted to the descriptor's kind: for Int, an int stays, a
  bool becomes 0 or 1, a finite float is truncated towards zero, a string is parsed; for Float,
  a float stays, a bool becomes 0.0 or 1.0, an int or a string is converted by the runtime; for
  Bool, the truth value of the prior value; for String, its text. Where the conversion raises
  (NaN or an infinity to int, text that does not parse, an int too large for a float) the prior
  raw value stays. So the new value is the prior one or has the descriptor's kind, and it does
  not depend on the default passed. Where the host's metadata facility is available, the
  key's UI metadata is overridden by the items passed: the description if there is one, and
  for Int and Float \<open>min\<close>, \<open>max\<close>, \<open>soft_min\<close>, \<open>soft_max\<close>, \<open>default\<close>, \<open>subtype\<close>, for Bool and
  String \<open>default\<close> only, each if given; where the facility raises, the exception is swallowed
  and the metadata stays as it was. Other keys and fields are untouched. With
  \<open>overwrite_existing\<close> on, this is what the loop over the targets does to such a container.
\<close>

theorem overwrite_coerces_existing:
  assumes "props b key = Some old"
  shows "\<exists>b' v'. idprop_apply_ui rt b key kw = Inr b' \<and>
      props b' = (props b)(key \<mapsto> v') \<and>
      v' = (case ptype kw of
              K_INT \<Rightarrow>
                (case old of
                   PInt n \<Rightarrow> PInt n
                 | PBool t \<Rightarrow> PInt (if t then 1 else 0)
                 | PFloat f \<Rightarrow> (case f of Fin r \<Rightarrow> PInt (if 0 \<le> r then \<lfloor>r\<rfloor> else \<lceil>r\<rceil>)
                                | PosInf \<Rightarrow> old | NegInf \<Rightarrow> old | NaN \<Rightarrow> old)
                 | PStr s \<Rightarrow> (case int_of_str rt s of Inl e \<Rightarrow> old | Inr n \<Rightarrow> PInt n))
            | K_FLOAT \<Rightarrow>
                (case old of
                   PInt n \<Rightarrow> (case float_of_int rt n of Inl e \<Rightarrow> old | Inr f \<Rightarrow> PFloat f)
                 | PBool t \<Rightarrow> PFloat (Fin (if t then 1 else 0))
                 | PFloat f \<Rightarrow> PFloat f
                 | PStr s \<Rightarrow> (case float_of_str rt s of Inl e \<Rightarrow> old | Inr f \<Rightarrow> PFloat f))
            | K_BOOL \<Rightarrow>
                PBool (case old of PInt n \<Rightarrow> n \<noteq> 0 | PBool t \<Rightarrow> t
                       | PFloat f \<Rightarrow> f \<noteq> Fin 0 | PStr s \<Rightarrow> s \<noteq> [])
            | K_STRING \<Rightarrow>
                PStr (case old of PInt n \<Rightarrow> str_int n
                      | PBool t \<Rightarrow> (if t then ''True'' else ''False'')
                      | PFloat f \<Rightarrow> str_of_float rt f | PStr s \<Rightarrow> s)) \<and>
      (v' = old \<or> kind_of v' = ptype kw) \<and>
      ui b' =
        (if ui_api b
         then (ui b)(key := ui b key ++
           (\<lambda>f. if f = ''description'' then map_option PStr (desc kw)
                else if ptype kw = K_INT \<or> ptype kw = K_FLOAT then
                  (if f = ''min'' then min_val kw else if f = ''max'' then max_val kw
                   else if f = ''soft_min'' then soft_min kw
                   else if f = ''soft_max'' then soft_max kw
                   else if f = ''default'' then dflt kw
                   else if f = ''subtype'' then map_option PStr (subtype kw) else None)
                else (if f = ''default'' then dflt kw else None)))
         else ui b) \<and>
      name b' = name b \<and> ui_api b' = ui_api b \<and>
      (\<exists>b''. idprop_apply_ui rt b key (kw\<lparr>dflt := d\<rparr>) = Inr b'' \<and> props b'' = props b') \<and>
      (overwrite_existing p \<and> s a = b \<longrightarrow> apply_targets rt p key kw [a] s = Inr (s(a := b')))"
proof -
  let ?v = "case coerce rt (ptype kw) old of Inl e \<Rightarrow> old | Inr v \<Rightarrow> v"
  let ?b = "apply_ui (b\<lparr>props := (props b)(key \<mapsto> ?v)\<rparr>) key kw"
  have 1: "idprop_apply_ui rt b key kw = Inr ?b" using assms by (rule idprop_apply_ui_present)
  have 2: "idprop_apply_ui rt b key (kw\<lparr>dflt := d\<rparr>) =
     Inr (apply_ui (b\<lparr>props := (props b)(key \<mapsto> ?v)\<rparr>) key (kw\<lparr>dflt := d\<rparr>))"
    using idprop_apply_ui_present [OF assms, of rt "kw\<lparr>dflt := d\<rparr>"] by simp
  have 3: "overwrite_existing p \<and> s a = b \<longrightarrow> apply_targets rt p key kw [a] s = Inr (s(a := ?b))"
    using 1 by simp
  have 4: "?v = old \<or> kind_of ?v = ptype kw"
    by (cases "coerce rt (ptype kw) old") (simp_all add: coerce_kind)
  have 5: "props ?b = (props b)(key \<mapsto> ?v)" "name ?b = name b" "ui_api ?b = ui_api b"
    by (simp_all add: apply_ui_fields)
  have 6: "ui ?b = (if ui_api b then (ui b)(key := ui b key ++ map_of (ui_data kw)) else ui b)"
    by (simp add: apply_ui_fields)
  have 7: "\<exists>b''. idprop_apply_ui rt b key (kw\<lparr>dflt := d\<rparr>) = Inr b'' \<and> props b'' = props ?b"
    by (simp add: 2 apply_ui_fields)
  show ?thesis
    apply (rule exI [of _ ?b])
    apply (rule exI [of _ ?v])
    apply (intro conjI)
            apply (rule 1)
           apply (rule 5(1))
          apply (rule coerce_table)
         apply (rule 4)
        apply (simp only: 6 map_of_ui_data)
       apply (rule 5(2))
      apply (rule 5(3))
     apply (rule 7)
    apply (rule 3)
    done
qed

text \<open>A stored \<open>True\<close> under an Int descriptor with default 5 becomes 1, not 5.\<close>

theorem overwrite_coerces_existing_witness:
  "props block_x_true ''x'' = Some (PBool True) \<and>
   (\<exists>b'. idprop_apply_ui sample_rt block_x_true ''x'' int_5_0_10 = Inr b' \<and>
      props b' ''x'' = Some (PInt 1) \<and> ui b' ''x'' ''default'' = Some (PInt 5) \<and>
      ui b' ''x'' ''max'' = Some (PInt 10))"
proof -
  have h: "props block_x_true ''x'' = Some (PBool True)"
    by (simp add: block_x_true_def empty_block_def)
  have kw: "ptype int_5_0_10 = K_INT" "dflt int_5_0_10 = Some (PInt 5)"
    "max_val int_5_0_10 = Some (PInt 10)"
    by (simp_all add: int_5_0_10_def type_values_def default_props_def Let_def)
  have api: "ui_api block_x_true" by (simp add: block_x_true_def empty_block_def)
  from overwrite_coerces_existing [OF h, where rt = sample_rt and kw = int_5_0_10
      and d = None and p = default_props and s = scene and a = 0]
  obtain b' v' where r: "idprop_apply_ui sample_rt block_x_true ''x'' int_5_0_10 = Inr b'"
    and p: "props b' = (props block_x_true)(''x'' \<mapsto> v')"
    and v: "v' = (case ptype int_5_0_10 of
              K_INT \<Rightarrow>
                (case PBool True of
                   PInt n \<Rightarrow> PInt n
                 | PBool t \<Rightarrow> PInt (if t then 1 else 0)
                 | PFloat f \<Rightarrow> (case f of Fin r \<Rightarrow> PInt (if 0 \<le> r then \<lfloor>r\<rfloor> else \<lceil>r\<rceil>)
                                | PosInf \<Rightarrow> PBool True | NegInf \<Rightarrow> PBool True | NaN \<Rightarrow> PBool True)
                 | PStr s \<Rightarrow> (case int_of_str sample_rt s of Inl e \<Rightarrow> PBool True | Inr n \<Rightarrow> PInt n))
            | K_FLOAT \<Rightarrow>
                (case PBool True of
                   PInt n \<Rightarrow> (case float_of_int sample_rt n of Inl e \<Rightarrow> PBool True | Inr f \<Rightarrow> PFloat f)
                 | PBool t \<Rightarrow> PFloat (Fin (if t then 1 else 0))
                 | PFloat f \<Rightarrow> PFloat f
                 | PStr s \<Rightarrow> (case float_of_str sample_rt s of Inl e \<Rightarrow> PBool True | Inr f \<Rightarrow> PFloat f))
            | K_BOOL \<Rightarrow>
                PBool (case PBool True of PInt n \<Rightarrow> n \<noteq> 0 | PBool t \<Rightarrow> t
                       | PFloat f \<Rightarrow> f \<noteq> Fin 0 | PStr s \<Rightarrow> s \<noteq> [])
            | K_STRING \<Rightarrow>
                PStr (case PBool True of PInt n \<Rightarrow> str_int n
                      | PBool t \<Rightarrow> (if t then ''True'' else ''False'')
                      | PFloat f \<Rightarrow> str_of_float sample_rt f | PStr s \<Rightarrow> s))"
    and u: "ui b' =
        (if ui_api block_x_true
         then (ui block_x_true)(''x'' := ui block_x_true ''x'' ++
           (\<lambda>f. if f = ''description'' then map_option PStr (desc int_5_0_10)
                else if ptype int_5_0_10 = K_INT \<or> ptype int_5_0_10 = K_FLOAT then
                  (if f = ''min'' then min_val int_5_0_10 else if f = ''max'' then max_val int_5_0_10
                   else if f = ''soft_min'' then soft_min int_5_0_10
                   else if f = ''soft_max'' then soft_max int_5_0_10
                   else if f = ''default'' then dflt int_5_0_10
                   else if f = ''subtype'' then map_option PStr (subtype int_5_0_10) else None)
                else (if f = ''default'' then dflt int_5_0_10 else None)))
         else ui block_x_true)"
    by blast
  from v have v1: "v' = PInt 1" by (simp add: kw)
  have "props b' ''x'' = Some (PInt 1)" by (simp add: p v1)
  moreover have "ui b' ''x'' ''default'' = Some (PInt 5)" "ui b' ''x'' ''max'' = Some (PInt 10)"
    by (simp_all add: u api kw)
  ultimately show ?thesis using h r by blast
qed

text \<open>
  Claim C3 as stated has the metadata applied on every container. On a block whose metadata
  facility raises, the value is still coerced but the metadata of the key stays empty, although
  the call passes a default of 5.
\<close>

theorem overwrite_without_metadata_facility:
  "\<not> isl (idprop_apply_ui sample_rt (block_x_true\<lparr>ui_api := False\<rparr>) ''x'' int_5_0_10) \<and>
   props (projr (idprop_apply_ui sample_rt (block_x_true\<lparr>ui_api := False\<rparr>) ''x'' int_5_0_10)) ''x''
     = Some (PInt 1) \<and>
   ui (projr (idprop_apply_ui sample_rt (block_x_true\<lparr>ui_api := False\<rparr>) ''x'' int_5_0_10)) ''x''
     = Map.empty \<and>
   dflt int_5_0_10 = Some (PInt 5)"
proof -
  have h: "props (block_x_true\<lparr>ui_api := False\<rparr>) ''x'' = Some (PBool True)"
    by (simp add: block_x_true_def empty_block_def)
  have kw: "ptype int_5_0_10 = K_INT" "dflt int_5_0_10 = Some (PInt 5)"
    by (simp_all add: int_5_0_10_def type_values_def default_props_def Let_def)
  show ?thesis
    by (simp add: idprop_apply_ui_present [OF h] kw coerce_def apply_ui_def)
       (simp add: block_x_true_def empty_block_def)
qed

lemma ensure_type_idem:
  "ensure_type rt (ensure_type rt b key kw) key kw = ensure_type rt b key kw"
proof (cases "coerce rt (ptype kw) (case props b key of None \<Rightarrow> zero_of (ptype kw) | Some v \<Rightarrow> v)")
  case (Inl e)
  then show ?thesis by (simp add: ensure_type_def)
next
  case (Inr w)
  then have "coerce rt (ptype kw) w = Inr w" by (rule coerce_fixed)
  with Inr show ?thesis by (simp add: ensure_type_def)
qed

lemma ensure_type_apply_ui:
  "ensure_type rt (apply_ui b key kw) key kw = apply_ui (ensure_type rt b key kw) key kw"
  by (simp add: ensure_type_def apply_ui_def split: sum.splits)

lemma map_add_twice: "m ++ x ++ x = m ++ x"
  by (rule ext) (simp add: map_add_def split: option.splits)

lemma apply_ui_idem: "apply_ui (apply_ui b key kw) key kw = apply_ui b key kw"
  by (simp add: apply_ui_def map_add_twice)

lemma ensure_type_has_key:
  "key \<in> dom (props b) \<Longrightarrow> key \<in> dom (props (ensure_type rt b key kw))"
  by (auto simp: ensure_type_def split: sum.splits)

lemma idprop_apply_ui_idem:
  assumes "idprop_apply_ui rt b key kw = Inr b1"
  shows "idprop_apply_ui rt b1 key kw = Inr b1"
proof -
  from assms obtain b0 where c: "create_if_missing rt b key kw = Inr b0"
    and b1: "b1 = apply_ui (ensure_type rt b0 key kw) key kw"
    by (auto simp: idprop_apply_ui_def split: sum.splits)
  have k0: "key \<in> dom (props b0)"
    using c by (auto simp: create_if_missing_def split: if_splits sum.splits)
  have "key \<in> dom (props b1)"
    unfolding b1 using ensure_type_has_key [OF k0] by (simp add: apply_ui_fields)
  then have "create_if_missing rt b1 key kw = Inr b1" by (simp add: create_if_missing_def)
  then have "idprop_apply_ui rt b1 key kw = Inr (apply_ui (ensure_type rt b1 key kw) key kw)"
    by (simp add: idprop_apply_ui_def)
  also have "apply_ui (ensure_type rt b1 key kw) key kw = b1"
    unfolding b1 by (simp add: ensure_type_apply_ui ensure_type_idem apply_ui_idem)
  finally show ?thesis .
qed

text \<open>
  Claim C8. A second \<open>idprop_apply_ui\<close> with the same arguments on the block the first one
  returned gives that block again, values and metadata alike; so does, with
  \<open>overwrite_existing\<close> on, a second pass of the loop over a target.
\<close>

theorem apply_twice_same_state:
  "(idprop_apply_ui rt b key kw = Inr b1 \<longrightarrow> idprop_apply_ui rt b1 key kw = Inr b1) \<and>
   (overwrite_existing p \<and> apply_targets rt p key kw [a] s = Inr s1 \<longrightarrow>
      apply_targets rt p key kw [a] s1 = Inr s1)"
proof (intro conjI impI)
  assume "idprop_apply_ui rt b key kw = Inr b1"
  then show "idprop_apply_ui rt b1 key kw = Inr b1" by (rule idprop_apply_ui_idem)
next
  assume a: "overwrite_existing p \<and> apply_targets rt p key kw [a] s = Inr s1"
  then obtain b' where 1: "idprop_apply_ui rt (s a) key kw = Inr b'" and s1: "s1 = s(a := b')"
    by (auto split: sum.splits)
  from idprop_apply_ui_idem [OF 1] have "idprop_apply_ui rt (s1 a) key kw = Inr b'"
    by (simp add: s1)
  with a show "apply_targets rt p key kw [a] s1 = Inr s1" by (simp add: s1)
qed

text \<open>Creating \<open>x\<close> on the empty cube block and applying again.\<close>

theorem apply_twice_same_state_witness:
  "\<exists>b1. idprop_apply_ui sample_rt (empty_block ''Cube'') ''x'' int_5_0_10 = Inr b1 \<and>
     idprop_apply_ui sample_rt b1 ''x'' int_5_0_10 = Inr b1 \<and>
     props b1 ''x'' = Some (PInt 5)"
proof -
  have kw: "ptype int_5_0_10 = K_INT" "dflt int_5_0_10 = Some (PInt 5)"
    by (simp_all add: int_5_0_10_def type_values_def default_props_def Let_def)
  obtain b1 where 1: "idprop_apply_ui sample_rt (empty_block ''Cube'') ''x'' int_5_0_10 = Inr b1"
    unfolding int_5_0_10_def using idprop_apply_ui_type_values by blast
  then have 3: "props b1 ''x'' = Some (PInt 5)"
    by (auto simp: idprop_apply_ui_def create_if_missing_def initial_value_def ensure_type_def
          coerce_def apply_ui_def kw empty_block_def)
  from apply_twice_same_state [of sample_rt "empty_block ''Cube''" "''x''" int_5_0_10 b1
      default_props 0 scene scene] 1
  have "idprop_apply_ui sample_rt b1 ''x'' int_5_0_10 = Inr b1" by blast
  with 1 3 show ?thesis by blast
qed

lemma apply_targets_skips:
  "\<not> overwrite_existing p \<Longrightarrow> prop_name \<in> dom (props (s a)) \<Longrightarrow>
   targets_store (apply_targets rt p prop_name kw ts s) a = s a"
proof (induction ts arbitrary: s)
  case Nil
  show ?case by (simp add: targets_store_def)
next
  case (Cons idb ts)
  show ?case
  proof (cases "prop_name \<in> dom (props (s idb))")
    case True
    with Cons show ?thesis by simp
  next
    case False
    with Cons.prems have ne: "idb \<noteq> a" by auto
    show ?thesis
    proof (cases "idprop_apply_ui rt (s idb) prop_name kw")
      case (Inl e)
      with False show ?thesis by (simp add: targets_store_def)
    next
      case (Inr b)
      have "targets_store (apply_targets rt p prop_name kw ts (s(idb := b))) a = (s(idb := b)) a"
        using Cons.prems ne by (intro Cons.IH) simp_all
      with False Inr ne show ?thesis by simp
    qed
  qed
qed

lemma idprop_apply_ui_other_key:
  "idprop_apply_ui rt b key kw = Inr b' \<Longrightarrow> k \<noteq> key \<Longrightarrow>
   props b' k = props b k \<and> ui b' k = ui b k"
  by (auto simp: idprop_apply_ui_def create_if_missing_def ensure_type_def apply_ui_def
           split: sum.splits if_splits)

lemma apply_targets_keeps:
  "\<not> overwrite_existing p \<Longrightarrow> props (s a) k = Some v \<Longrightarrow>
   props (targets_store (apply_targets rt p prop_name kw ts s) a) k = Some v \<and>
   ui (targets_store (apply_targets rt p prop_name kw ts s) a) k = ui (s a) k"
proof (induction ts arbitrary: s)
  case Nil
  then show ?case by (simp add: targets_store_def)
next
  case (Cons idb ts)
  show ?case
  proof (cases "prop_name \<in> dom (props (s idb)) \<and> \<not> overwrite_existing p")
    case True
    with Cons show ?thesis by simp
  next
    case False
    show ?thesis
    proof (cases "idprop_apply_ui rt (s idb) prop_name kw")
      case (Inl e)
      with False Cons.prems show ?thesis by (simp add: targets_store_def)
    next
      case (Inr b)
      have keep: "props ((s(idb := b)) a) k = Some v \<and> ui ((s(idb := b)) a) k = ui (s a) k"
      proof (cases "idb = a")
        case True
        with False Cons.prems have "k \<noteq> prop_name" by auto
        from idprop_apply_ui_other_key [OF Inr this] True Cons.prems show ?thesis by simp
      next
        case False
        with Cons.prems show ?thesis by simp
      qed
      then have "props (targets_store (apply_targets rt p prop_name kw ts (s(idb := b))) a) k = Some v \<and>
          ui (targets_store (apply_targets rt p prop_name kw ts (s(idb := b))) a) k = ui ((s(idb := b)) a) k"
        using Cons.prems(1) by (intro Cons.IH) simp_all
      moreover from False
      have "(prop_name \<in> dom (props (s idb)) \<and> \<not> overwrite_existing p) = False" by simp
      then have "apply_targets rt p prop_name kw (idb # ts) s =
          apply_targets rt p prop_name kw ts (s(idb := b))"
        by (simp only: apply_targets.simps if_False Inr sum.case)
      ultimately show ?thesis using keep by (simp only:)
    qed
  qed
qed

lemma run_loop_keeps:
  "\<not> overwrite_existing p \<Longrightarrow> props (s a) k = Some v \<Longrightarrow>
   props (loop_store (run_loop rt p ts n idx s) a) k = Some v \<and>
   ui (loop_store (run_loop rt p ts n idx s) a) k = ui (s a) k"
proof (induction n arbitrary: idx s)
  case 0
  then show ?case by (simp add: loop_store_def)
next
  case (Suc n)
  show ?case
  proof (cases "build_name p idx = []")
    case True
    with Suc.prems show ?thesis by (simp add: loop_store_def)
  next
    case False
    let ?s = "write_name rt p ts (build_name p idx) s"
    have k: "props (?s a) k = Some v \<and> ui (?s a) k = ui (s a) k"
      unfolding write_name_def using Suc.prems by (rule apply_targets_keeps)
    then have "props (loop_store (run_loop rt p ts n (idx + 1) ?s) a) k = Some v \<and>
       ui (loop_store (run_loop rt p ts n (idx + 1) ?s) a) k = ui (?s a) k"
      using Suc.prems(1) by (intro Suc.IH) simp_all
    with False k show ?thesis by (simp add: Let_def apply_targets_type_values)
  qed
qed

lemma execute_store:
  "snd (execute rt p ao s) =
     (case ao of None \<Rightarrow> s
      | Some obj \<Rightarrow> (case resolve_targets p obj s of Inl r \<Rightarrow> s
          | Inr ts \<Rightarrow> loop_store (run_loop rt p ts (nat (count p)) (start_index p) s)))"
  by (simp add: execute_def loop_store_def split: option.splits sum.splits loop_result.splits)

text \<open>
  Claim C4. With \<open>overwrite_existing\<close> off, the loop over the targets leaves a container that
  holds the generated name exactly as it was; and over a whole run of the operator every key
  present at the start keeps its value and its UI metadata.
\<close>

theorem no_overwrite_skips:
  "(\<not> overwrite_existing p \<and> prop_name \<in> dom (props (s a)) \<longrightarrow>
      targets_store (apply_targets rt p prop_name kw ts s) a = s a) \<and>
   (\<not> overwrite_existing p \<and> props (s a) k = Some v \<longrightarrow>
      props (snd (execute rt p ao s) a) k = Some v \<and>
      ui (snd (execute rt p ao s) a) k = ui (s a) k)"
proof (intro conjI impI)
  assume "\<not> overwrite_existing p \<and> prop_name \<in> dom (props (s a))"
  then show "targets_store (apply_targets rt p prop_name kw ts s) a = s a"
    by (intro apply_targets_skips) simp_all
next
  assume a: "\<not> overwrite_existing p \<and> props (s a) k = Some v"
  then have l: "props (loop_store (run_loop rt p ts n idx s) a) k = Some v \<and>
   ui (loop_store (run_loop rt p ts n idx s) a) k = ui (s a) k" for ts n idx
    by (intro run_loop_keeps) simp_all
  from a l show "props (snd (execute rt p ao s) a) k = Some v"
    by (simp add: execute_store split: option.splits sum.splits)
  from a l show "ui (snd (execute rt p ao s) a) k = ui (s a) k"
    by (simp add: execute_store split: option.splits sum.splits)
qed

text \<open>A cube that has \<open>x = 7\<close> keeps the value 7 and its (empty) metadata.\<close>

theorem no_overwrite_skips_witness:
  "\<not> overwrite_existing (default_props\<lparr>base_name := ''x'', int_default := 5, overwrite_existing := False\<rparr>) \<and>
   props (scene_x7 0) ''x'' = Some (PInt 7) \<and>
   props (snd (execute sample_rt
      (default_props\<lparr>base_name := ''x'', int_default := 5, overwrite_existing := False\<rparr>)
      (Some cube) scene_x7) 0) ''x'' = Some (PInt 7) \<and>
   ui (snd (execute sample_rt
      (default_props\<lparr>base_name := ''x'', int_default := 5, overwrite_existing := False\<rparr>)
      (Some cube) scene_x7) 0) ''x'' = Map.empty \<and>
   targets_store (apply_targets sample_rt
      (default_props\<lparr>base_name := ''x'', int_default := 5, overwrite_existing := False\<rparr>) ''x''
      int_5_0_10 [0] scene_x7) 0 = scene_x7 0"
proof -
  let ?p = "default_props\<lparr>base_name := ''x'', int_default := 5, overwrite_existing := False\<rparr>"
  have h: "\<not> overwrite_existing ?p" by (simp add: default_props_def)
  have v: "props (scene_x7 0) ''x'' = Some (PInt 7)" "ui (scene_x7 0) ''x'' = Map.empty"
    by (simp_all add: scene_x7_def empty_block_def)
  have d: "''x'' \<in> dom (props (scene_x7 0))" using v by blast
  from no_overwrite_skips [of ?p "''x''" scene_x7 0 sample_rt int_5_0_10 "[0]" "''x''" "PInt 7" "Some cube"]
    h v d show ?thesis by simp
qed

section \<open>All materials\<close>

text \<open>When the materials in the slots have pairwise different names, the dictionary keyed by
  name keeps each of them once.\<close>

lemma dict_set_own_key:
  "\<forall>(k', v')\<in>set d. k' = f v' \<Longrightarrow> inj_on f (insert v (snd ` set d)) \<Longrightarrow>
   dict_set (f v) v d = (if v \<in> snd ` set d then d else d @ [(f v, v)])"
proof (induction d)
  case Nil
  show ?case by simp
next
  case (Cons e d)
  obtain k' v' where e: "e = (k', v')" by (cases e)
  with Cons.prems(1) have k': "k' = f v'" by simp
  have inj: "inj_on f (insert v (snd ` set d))"
    using Cons.prems(2) by (rule inj_on_subset) auto
  have p1: "\<forall>(k', v')\<in>set d. k' = f v'" using Cons.prems(1) by simp
  have IH: "dict_set (f v) v d = (if v \<in> snd ` set d then d else d @ [(f v, v)])"
    by (rule Cons.IH [OF p1 inj])
  show ?case
  proof (cases "f v = f v'")
    case True
    have "v \<in> insert v (snd ` set (e # d))" by simp
    moreover have "v' \<in> insert v (snd ` set (e # d))" by (simp add: e)
    ultimately have "v = v'" by (rule inj_onD [OF Cons.prems(2) True])
    then show ?thesis by (simp add: e k')
  next
    case False
    then have ne: "v \<noteq> v'" by auto
    have "dict_set (f v) v (e # d) = e # dict_set (f v) v d"
      using False by (simp add: e k')
    also have "\<dots> = (if v \<in> snd ` set (e # d) then e # d else (e # d) @ [(f v, v)])"
      using ne by (simp add: IH e)
    finally show ?thesis .
  qed
qed

lemma fold_dict_set_unique:
  "\<forall>(k', v')\<in>set d. k' = f v' \<Longrightarrow> distinct (map snd d) \<Longrightarrow>
   inj_on f (snd ` set d \<union> set mats) \<Longrightarrow>
   set (map snd (foldl (\<lambda>d m. dict_set (f m) m d) d mats)) = snd ` set d \<union> set mats \<and>
   distinct (map snd (foldl (\<lambda>d m. dict_set (f m) m d) d mats))"
proof (induction mats arbitrary: d)
  case Nil
  then show ?case by simp
next
  case (Cons m mats)
  have inj1: "inj_on f (insert m (snd ` set d))"
    using Cons.prems(3) by (rule inj_on_subset) auto
  let ?d = "dict_set (f m) m d"
  have d': "?d = (if m \<in> snd ` set d then d else d @ [(f m, m)])"
    using Cons.prems(1) inj1 by (rule dict_set_own_key)
  have 1: "\<forall>(k', v')\<in>set ?d. k' = f v'" using Cons.prems(1) by (auto simp: d')
  have 2: "distinct (map snd ?d)" using Cons.prems(2) by (auto simp: d')
  have s: "snd ` set ?d = insert m (snd ` set d)" by (auto simp: d')
  have 3: "inj_on f (snd ` set ?d \<union> set mats)"
    using Cons.prems(3) by (simp add: s insert_commute)
  from Cons.IH [OF 1 2 3] show ?case by (simp add: s)
qed

lemma dedup_by_name_unique_names:
  "inj_on (\<lambda>m. name (s m)) (set mats) \<Longrightarrow>
   set (dedup_by_name s mats) = set mats \<and> distinct (dedup_by_name s mats)"
  using fold_dict_set_unique [of "[]" "\<lambda>m. name (s m)" mats] by (simp add: dedup_by_name_def)

lemma resolve_same_name: 
  "resolve_targets (default_props\<lparr>placement := P_ALL_MATERIALS\<rparr>) cube same_name_scene = Inr [2]"
  by (simp add: resolve_targets_def default_props_def cube_def same_name_scene_def
        dedup_by_name_def List.map_filter_def empty_block_def)

lemma int_0_write:
  "props b key = None \<Longrightarrow>
   \<exists>b'. idprop_apply_ui rt b key (type_values (default_props\<lparr>placement := P_ALL_MATERIALS\<rparr>)) = Inr b' \<and>
        props b' = (props b)(key \<mapsto> PInt 0)"
  by (simp add: idprop_apply_ui_def create_if_missing_def initial_value_def ensure_type_def
        coerce_def apply_ui_def type_values_def default_props_def Let_def dom_def)

lemma after_names_0: "after_names rt p ts idx 0 s = s"
  by (simp add: after_names_def)

lemma write_name_single:
  "overwrite_existing p \<Longrightarrow> idprop_apply_ui rt (s a) nm (type_values p) = Inr b \<Longrightarrow>
   write_name rt p [a] nm s = s(a := b)"
  by (simp add: write_name_def targets_store_def)

text \<open>
  Claim C9 asks for every distinct material in a populated slot to be a target exactly once.
  The operator keys the materials by name: with two different materials of the same name in
  the two slots of the cube, the only target is the second one; the run reports one target and
  the first material receives no property.
\<close>

theorem all_materials_same_name_dropped:
  "resolve_targets (default_props\<lparr>placement := P_ALL_MATERIALS\<rparr>) cube same_name_scene = Inr [2] \<and>
   fst (execute sample_rt (default_props\<lparr>placement := P_ALL_MATERIALS\<rparr>) (Some cube) same_name_scene)
     = FINISHED 1 1 \<and>
   props (snd (execute sample_rt (default_props\<lparr>placement := P_ALL_MATERIALS\<rparr>) (Some cube)
           same_name_scene) 1) ''prop'' = None \<and>
   props (snd (execute sample_rt (default_props\<lparr>placement := P_ALL_MATERIALS\<rparr>) (Some cube)
           same_name_scene) 2) ''prop'' = Some (PInt 0)"
proof -
  let ?p = "default_props\<lparr>placement := P_ALL_MATERIALS\<rparr>"
  have nm: "build_name ?p idx = ''prop''" for idx
    by (simp add: build_name_def default_props_def)
  have n: "nat (count ?p) = Suc 0" "start_index ?p = 1" "overwrite_existing ?p" "count ?p = 1"
    by (simp_all add: default_props_def start_index_def)
  have e: "props (same_name_scene 2) ''prop'' = None" "props (same_name_scene 1) ''prop'' = None"
    by (simp_all add: same_name_scene_def empty_block_def)
  from int_0_write [OF e(1), of sample_rt] obtain b'
    where b: "idprop_apply_ui sample_rt (same_name_scene 2) ''prop'' (type_values ?p) = Inr b'"
      and pb: "props b' = (props (same_name_scene 2))(''prop'' \<mapsto> PInt 0)" by blast
  have ne: "\<forall>j<nat (count ?p). build_name ?p (start_index ?p + int j) \<noteq> []"
    by (simp add: nm)
  have ex: "execute sample_rt ?p (Some cube) same_name_scene =
      (FINISHED (count ?p) (length [2::nat]),
       after_names sample_rt ?p [2] (start_index ?p) (nat (count ?p)) same_name_scene)"
    by (rule execute_completes [OF resolve_same_name ne])
  have an: "after_names sample_rt ?p [2] (start_index ?p) (nat (count ?p)) same_name_scene =
      same_name_scene(2 := b')"
    by (simp only: n(1,2) after_names_Suc after_names_0 nm
          write_name_single [where s = same_name_scene and a = 2, OF n(3) b])
  have "execute sample_rt ?p (Some cube) same_name_scene =
      (FINISHED 1 1, same_name_scene(2 := b'))"
    unfolding ex an by (simp add: n(4))
  then show ?thesis
    by (simp add: resolve_same_name pb) (simp add: same_name_scene_def empty_block_def)
qed

section \<open>The end-to-end example\<close>

lemma write_name_Nil: "write_name rt p [] nm s = s"
  by (simp add: write_name_def targets_store_def)

lemma write_name_Cons:
  "overwrite_existing p \<Longrightarrow> idprop_apply_ui rt (s a) nm (type_values p) = Inr b \<Longrightarrow>
   write_name rt p (a # ts) nm s = write_name rt p ts nm (s(a := b))"
  by (simp add: write_name_def)

lemma resolve_flag: "resolve_targets flag_request cube scene = Inr [1, 2]"
  by (simp add: resolve_targets_def flag_request_def default_props_def cube_def scene_def
        dedup_by_name_def List.map_filter_def empty_block_def)

lemma flag_write:
  "props b key = None \<Longrightarrow> ui_api b \<Longrightarrow>
   idprop_apply_ui rt b key (type_values flag_request) =
     Inr (b\<lparr>props := (props b)(key \<mapsto> PBool True),
             ui := (ui b)(key := ui b key ++ [''default'' \<mapsto> PBool True])\<rparr>)"
  by (simp add: idprop_apply_ui_def create_if_missing_def initial_value_def ensure_type_def
        coerce_def apply_ui_def type_values_def flag_request_def default_props_def Let_def dom_def
        ui_data_def opt_item_def)

lemma flag_names:
  "build_name flag_request 1 = ''001_flag''" "build_name flag_request (1 + 1) = ''002_flag''"
  by (simp_all add: build_name_def flag_request_def default_props_def zero_pad_1 zero_pad_2)

lemma flag_run:
  "execute rt flag_request (Some cube) scene =
     (FINISHED 2 2,
      scene(1 := (empty_block ''A'')\<lparr>props := [''001_flag'' \<mapsto> PBool True, ''002_flag'' \<mapsto> PBool True],
               ui := (\<lambda>k. Map.empty)(''001_flag'' := [''default'' \<mapsto> PBool True],
                                        ''002_flag'' := [''default'' \<mapsto> PBool True])\<rparr>,
            2 := (empty_block ''B'')\<lparr>props := [''001_flag'' \<mapsto> PBool True, ''002_flag'' \<mapsto> PBool True],
               ui := (\<lambda>k. Map.empty)(''001_flag'' := [''default'' \<mapsto> PBool True],
                                        ''002_flag'' := [''default'' \<mapsto> PBool True])\<rparr>))"
proof -
  let ?p = flag_request
  have n: "nat (count ?p) = Suc (Suc 0)" "start_index ?p = 1" "overwrite_existing ?p"
    by (simp_all add: flag_request_def default_props_def start_index_def)
  have c: "count ?p = 2" by (simp add: flag_request_def default_props_def)
  have a: "auto_increment ?p" by (simp add: flag_request_def default_props_def)
  have ne: "\<forall>j<nat (count ?p). build_name ?p (start_index ?p + int j) \<noteq> []"
    using a by (simp add: build_name_auto_nonempty)
  have ex: "execute rt ?p (Some cube) scene =
      (FINISHED (count ?p) (length [1::nat, 2]),
       after_names rt ?p [1, 2] (start_index ?p) (nat (count ?p)) scene)"
    by (rule execute_completes [OF resolve_flag ne])
  let ?w = "\<lambda>key b. b\<lparr>props := (props b)(key \<mapsto> PBool True),
             ui := (ui b)(key := ui b key ++ [''default'' \<mapsto> PBool True])\<rparr>"
  let ?s1 = "scene(1 := ?w ''001_flag'' (scene 1), 2 := ?w ''001_flag'' (scene 2))"
  have w1: "write_name rt ?p [1, 2] ''001_flag'' scene = ?s1"
  proof -
    have 1: "idprop_apply_ui rt (scene 1) ''001_flag'' (type_values ?p) = Inr (?w ''001_flag'' (scene 1))"
      by (rule flag_write) (simp_all add: scene_def empty_block_def)
    have 2: "idprop_apply_ui rt ((scene(1 := ?w ''001_flag'' (scene 1))) 2) ''001_flag'' (type_values ?p)
        = Inr (?w ''001_flag'' (scene 2))"
      using flag_write [of "scene 2" "''001_flag''" rt] by (simp add: scene_def empty_block_def)
    show ?thesis
      by (simp only: write_name_Cons [where s = scene and a = 1, OF n(3) 1]
            write_name_Cons [where s = "scene(1 := ?w ''001_flag'' (scene 1))" and a = 2, OF n(3) 2]
            write_name_Nil)
  qed
  let ?s2 = "?s1(1 := ?w ''002_flag'' (?s1 1), 2 := ?w ''002_flag'' (?s1 2))"
  have w2: "write_name rt ?p [1, 2] ''002_flag'' ?s1 = ?s2"
  proof -
    have 1: "idprop_apply_ui rt (?s1 1) ''002_flag'' (type_values ?p) = Inr (?w ''002_flag'' (?s1 1))"
      by (rule flag_write) (simp_all add: scene_def empty_block_def)
    have 2: "idprop_apply_ui rt ((?s1(1 := ?w ''002_flag'' (?s1 1))) 2) ''002_flag'' (type_values ?p)
        = Inr (?w ''002_flag'' (?s1 2))"
      using flag_write [of "?s1 2" "''002_flag''" rt] by (simp add: scene_def empty_block_def)
    show ?thesis
      by (simp only: write_name_Cons [where s = ?s1 and a = 1, OF n(3) 1]
            write_name_Cons [where s = "?s1(1 := ?w ''002_flag'' (?s1 1))" and a = 2, OF n(3) 2]
            write_name_Nil)
  qed
  have an: "after_names rt ?p [1, 2] (start_index ?p) (nat (count ?p)) scene = ?s2"
    by (simp only: n(1,2) after_names_Suc after_names_0 flag_names w1 w2)
  show ?thesis
    unfolding ex an by (simp add: c scene_def empty_block_def fun_upd_twist)
qed

text \<open>
  Claim C2, as amended. The run of the example request on the cube finishes; both materials
  \<open>A\<close> and \<open>B\<close>, empty before, then hold exactly the keys \<open>001_flag\<close> and \<open>002_flag\<close>, each with
  the boolean value true; the report counts 2 properties (the request's count) on 2 targets.
\<close>

theorem flag_example:
  "fst (execute rt flag_request (Some cube) scene) = FINISHED 2 2 \<and>
   props (snd (execute rt flag_request (Some cube) scene) 1) =
     [''001_flag'' \<mapsto> PBool True, ''002_flag'' \<mapsto> PBool True] \<and>
   props (snd (execute rt flag_request (Some cube) scene) 2) =
     [''001_flag'' \<mapsto> PBool True, ''002_flag'' \<mapsto> PBool True] \<and>
   props (scene 1) = Map.empty \<and> props (scene 2) = Map.empty"
  by (simp add: flag_run) (simp add: scene_def empty_block_def)

text \<open>Claim C2 as stated has the run report 4 created properties; the operator reports the
  request's count, 2.\<close>

theorem flag_example_reports_count:
  "fst (execute sample_rt flag_request (Some cube) scene) \<noteq> FINISHED 4 2"
  by (simp add: flag_run)

end
